theory Spec2Isabelle
  imports Main "HOL-Library.Sublist"
begin

section \<open>The compose-to-template converter\<close>

text \<open>
  A shallow embedding of the class \<open>ComposeToTemplateConverter\<close>: the service classifier
  \<open>analyzeServices\<close>, the value normalizers \<open>parseEnvironment\<close>, \<open>parseVolume\<close> and
  \<open>parsePort\<close>, the schema built by \<open>generateMetaYaml\<close>, and the source text built by
  \<open>generateIndexTs\<close>, \<open>generateAppServiceCode\<close> and \<open>interpolateEnvValue\<close>.

  Strings are lists of characters, and a character stands for one code unit of the
  source's strings, below 256 (ASCII and Latin-1); strings with other code units are not
  in the model. A JavaScript object used as a record (\<open>Record<string, T>\<close>) is the
  list of its own enumerable properties, in the order \<open>Object.entries\<close> lists them,
  which is the order in which the converter visits the services of a document. An image,
  a port, a volume and a token of an environment are strings, as the source declares them;
  the values of an environment in its mapping form are the scalars that the document
  holds.
\<close>

subsection \<open>Strings\<close>

text \<open>
  \<open>String.prototype.toLowerCase\<close>: the letters \<open>A\<close>..\<open>Z\<close>, and the capital
  letters of Latin-1 (the code units \<open>0xC0\<close>..\<open>0xDE\<close> but the sign \<open>0xD7\<close>), which
  lie 32 below their small letters; the other characters are left as they are.
\<close>

definition lower_char :: "char \<Rightarrow> char" where
  "lower_char c =
     (case map_of (zip ''ABCDEFGHIJKLMNOPQRSTUVWXYZ'' ''abcdefghijklmnopqrstuvwxyz'') c of
        Some l \<Rightarrow> l
      | None \<Rightarrow>
          (let n = (of_char c :: nat)
           in if 192 \<le> n \<and> n \<le> 222 \<and> n \<noteq> 215 then char_of (n + 32) else c))"

definition toLowerCase :: "string \<Rightarrow> string" where
  "toLowerCase s = map lower_char s"

text \<open>\<open>s.includes(pat)\<close>: \<open>pat\<close> occurs in \<open>s\<close> at some position.\<close>

fun includes_str :: "string \<Rightarrow> string \<Rightarrow> bool" where
  "includes_str [] pat = (pat = [])"
| "includes_str (c # cs) pat = (prefix pat (c # cs) \<or> includes_str cs pat)"

text \<open>\<open>s.startsWith(pat)\<close>.\<close>

definition startsWith :: "string \<Rightarrow> string \<Rightarrow> bool" where
  "startsWith s pat = prefix pat s"

text \<open>
  \<open>s.split(d)\<close> for a separator of one character: the pieces between the
  separators, so that a string with \<open>n\<close> separators has \<open>n + 1\<close> pieces and the
  empty string has the one piece \<open>''''\<close>. The empty-list branch of the \<open>case\<close> is never
  taken (see \<open>split_on_not_Nil\<close>).
\<close>

fun split_on :: "char \<Rightarrow> string \<Rightarrow> string list" where
  "split_on d [] = [[]]"
| "split_on d (c # cs) =
     (if c = d then [] # split_on d cs
      else (case split_on d cs of
              [] \<Rightarrow> [[c]]
            | p # ps \<Rightarrow> (c # p) # ps))"

text \<open>\<open>parts.join(d)\<close> for a separator of one character.\<close>

fun join_with :: "char \<Rightarrow> string list \<Rightarrow> string" where
  "join_with d [] = []"
| "join_with d [p] = p"
| "join_with d (p # q # ps) = p @ d # join_with d (q # ps)"

subsection \<open>Compose documents\<close>

text \<open>
  \<open>interface DockerComposeService\<close>, with the fields the converter reads. Every field
  is optional in the source (\<open>image?: string\<close>), so every field is an \<open>option\<close>.
  \<open>build\<close> is a string or an object with a context and an optional dockerfile;
  \<open>command\<close> is a string or an array; \<open>environment\<close> is a record or an array of
  \<open>KEY=VALUE\<close> tokens.

  The source declares the record of an environment as \<open>Record<string, string>\<close> and
  reads its values as \<open>string | number | boolean\<close>, through \<open>String(value)\<close>: the
  values are the scalars of the document. A number is given by the text that
  \<open>String\<close> writes for it (\<open>3000\<close>, \<open>0.5\<close>), which is all that the source reads
  of it.
\<close>

datatype env_value = EnvStr string | EnvNum string | EnvBool bool | EnvNull

text \<open>\<open>String(value)\<close>.\<close>

definition js_string :: "env_value \<Rightarrow> string" where
  "js_string v =
     (case v of
        EnvStr s \<Rightarrow> s
      | EnvNum t \<Rightarrow> t
      | EnvBool b \<Rightarrow> (if b then ''true'' else ''false'')
      | EnvNull \<Rightarrow> ''null'')"

datatype build_ref = BuildPath string | BuildObj string "string option"

datatype command_ref = CommandStr string | CommandList "string list"

datatype environment_ref = EnvRecord "(string \<times> env_value) list" | EnvArray "string list"

record DockerComposeService =
  image_opt :: "string option"
  build_opt :: "build_ref option"
  command_opt :: "command_ref option"
  environment_opt :: "environment_ref option"
  ports_opt :: "string list option"
  volumes_opt :: "string list option"

text \<open>
  JavaScript truthiness of the optional fields: an absent field and the empty string are
  falsy, an object or an array is truthy.
\<close>

definition truthy_str :: "string option \<Rightarrow> bool" where
  "truthy_str v = (case v of None \<Rightarrow> False | Some s \<Rightarrow> s \<noteq> [])"

definition truthy_build :: "build_ref option \<Rightarrow> bool" where
  "truthy_build v =
     (case v of None \<Rightarrow> False | Some (BuildPath s) \<Rightarrow> s \<noteq> [] | Some (BuildObj c d) \<Rightarrow> True)"

definition truthy_command :: "command_ref option \<Rightarrow> bool" where
  "truthy_command v =
     (case v of None \<Rightarrow> False | Some (CommandStr s) \<Rightarrow> s \<noteq> [] | Some (CommandList xs) \<Rightarrow> True)"

subsection \<open>The service classifier\<close>

record Analysis =
  databases :: "string list"
  apps :: "string list"
  otherServices :: "string list"

definition dbImages :: "string list" where
  "dbImages = [''postgres'', ''mysql'', ''mariadb'', ''mongo'', ''redis'', ''elasticsearch'']"

text \<open>
  \<open>const image = service.image?.toLowerCase() || ''\<close> and
  \<open>dbImages.some((db) => image.includes(db) || name.toLowerCase().includes(db))\<close>.
\<close>

definition isDb :: "string \<Rightarrow> DockerComposeService \<Rightarrow> bool" where
  "isDb name service =
     (let image = (case image_opt service of None \<Rightarrow> [] | Some i \<Rightarrow> toLowerCase i)
      in list_ex (\<lambda>db. includes_str image db \<or> includes_str (toLowerCase name) db) dbImages)"

text \<open>The body of the loop over \<open>Object.entries(services)\<close>; \<open>push\<close> appends.\<close>

fun analyze_step :: "Analysis \<Rightarrow> string \<times> DockerComposeService \<Rightarrow> Analysis" where
  "analyze_step a (name, service) =
     (if isDb name service then a\<lparr>databases := databases a @ [name]\<rparr>
      else if truthy_str (image_opt service) \<or> truthy_build (build_opt service)
      then a\<lparr>apps := apps a @ [name]\<rparr>
      else a\<lparr>otherServices := otherServices a @ [name]\<rparr>)"

definition analyzeServices :: "(string \<times> DockerComposeService) list \<Rightarrow> Analysis" where
  "analyzeServices services =
     foldl analyze_step \<lparr>databases = [], apps = [], otherServices = []\<rparr> services"

text \<open>
  The wording of the specification, for comparison: one lowercase haystack, the image
  reference followed by the declared name, searched for the keywords.
\<close>

definition spec_haystack :: "string \<Rightarrow> DockerComposeService \<Rightarrow> string" where
  "spec_haystack name service =
     toLowerCase ((case image_opt service of None \<Rightarrow> [] | Some i \<Rightarrow> i) @ name)"

definition spec_isDatabase :: "string \<Rightarrow> DockerComposeService \<Rightarrow> bool" where
  "spec_isDatabase name service = list_ex (includes_str (spec_haystack name service)) dbImages"

subsection \<open>Volume specifiers\<close>

text \<open>
  The result of \<open>parseVolume\<close>: \<open>{type: 'volume' | 'bind', name, containerPath,
  hostPath?}\<close>. The fields \<open>type\<close> and \<open>name\<close> are \<open>vtype\<close> and \<open>vname\<close> here.
\<close>

datatype volume_type = Volume | Bind

record ParsedVolume =
  vtype :: volume_type
  vname :: string
  containerPath :: string
  hostPath :: "string option"

definition parseVolume :: "string \<Rightarrow> ParsedVolume" where
  "parseVolume volume =
     (let parts = split_on CHR '':'' volume in
      if length parts \<ge> 2 then
        (let source = parts ! 0; target = parts ! 1 in
         if startsWith source ''/'' \<or> startsWith source ''./''
         then \<lparr>vtype = Bind, vname = source, containerPath = target, hostPath = Some source\<rparr>
         else \<lparr>vtype = Volume, vname = source, containerPath = target, hostPath = None\<rparr>)
      else \<lparr>vtype = Volume, vname = ''unknown'', containerPath = volume, hostPath = None\<rparr>)"

subsection \<open>Port specifiers\<close>

text \<open>
  A JavaScript number as \<open>parseInt\<close> returns it. \<open>NaN\<close>; or \<open>Num n\<close>, the integer
  \<open>n\<close>, of magnitude \<open>2 ^ 53\<close> at most, where every integer is a number of the
  language; or \<open>Beyond\<close>, a number of greater magnitude: there the source returns the
  number nearest to the digits, or an infinity, and the model does not say which.
\<close>

datatype jsnum = NaN | Num int | Beyond

definition max_exact :: int where
  "max_exact = 9007199254740992"

text \<open>
  The white space that \<open>parseInt\<close> skips, among the code units of the model: tab, line
  feed, vertical tab, form feed, carriage return, space, no-break space.
\<close>

definition is_space :: "char \<Rightarrow> bool" where
  "is_space c =
     (c \<in> set [CHR 0x09, CHR 0x0A, CHR 0x0B, CHR 0x0C, CHR 0x0D, CHR 0x20, CHR 0xA0])"

definition is_digit :: "char \<Rightarrow> bool" where
  "is_digit c = (c \<in> set ''0123456789'')"

definition digit_val :: "char \<Rightarrow> nat" where
  "digit_val c = of_char c - 48"

definition digits_value :: "string \<Rightarrow> int" where
  "digits_value ds = foldl (\<lambda>a c. 10 * a + int (digit_val c)) 0 ds"

text \<open>
  \<open>parseInt(s, 10)\<close>: leading white space is skipped, one sign is read, then the
  longest run of decimal digits; with no digit there the result is \<open>NaN\<close>. What follows
  the digits is ignored.
\<close>

definition parseInt :: "string \<Rightarrow> jsnum" where
  "parseInt s =
     (let t = dropWhile is_space s;
          neg = (t \<noteq> [] \<and> hd t = CHR ''-'');
          u = (if t \<noteq> [] \<and> (hd t = CHR ''-'' \<or> hd t = CHR ''+'') then tl t else t);
          ds = takeWhile is_digit u
      in if ds = [] then NaN
         else if digits_value ds > max_exact then Beyond
         else if neg then Num (- digits_value ds)
         else Num (digits_value ds))"

record PortBinding =
  hostPort :: jsnum
  containerPort :: jsnum

text \<open>\<open>parsePort\<close> returns a binding or \<open>null\<close>.\<close>

definition parsePort :: "string \<Rightarrow> PortBinding option" where
  "parsePort port =
     (let parts = split_on CHR '':'' port in
      if length parts = 2
      then Some \<lparr>hostPort = parseInt (parts ! 0), containerPort = parseInt (parts ! 1)\<rparr>
      else if length parts = 1
      then (let p = parseInt (parts ! 0) in Some \<lparr>hostPort = p, containerPort = p\<rparr>)
      else None)"

subsection \<open>Objects as ordered records\<close>

text \<open>
  An object that the converter fills by assignment \<open>obj[key] = value\<close>, starting from an
  object literal, is the list of its own properties in the order \<open>Object.entries\<close> and
  \<open>Object.keys\<close> list them: the array indices first, in ascending numeric order, then
  the other keys in the order of their creation.

  An array index is a canonical numeric string below \<open>2 ^ 32 - 1\<close>.
\<close>

definition is_array_index :: "string \<Rightarrow> bool" where
  "is_array_index k =
     (k \<noteq> [] \<and> list_all is_digit k \<and> (k = ''0'' \<or> hd k \<noteq> CHR ''0'')
      \<and> digits_value k < 4294967295)"

fun insert_index :: "string \<Rightarrow> 'v \<Rightarrow> (string \<times> 'v) list \<Rightarrow> (string \<times> 'v) list" where
  "insert_index k v [] = [(k, v)]"
| "insert_index k v (p # ps) =
     (if is_array_index (fst p) \<and> digits_value (fst p) < digits_value k
      then p # insert_index k v ps
      else (k, v) # p # ps)"

fun replace_value :: "string \<Rightarrow> 'v \<Rightarrow> (string \<times> 'v) list \<Rightarrow> (string \<times> 'v) list" where
  "replace_value k v [] = []"
| "replace_value k v (p # ps) =
     (if fst p = k then (k, v) # ps else p # replace_value k v ps)"

text \<open>
  \<open>obj[k] = v\<close>. An own property keeps its place and takes the new value. A new key
  \<open>__proto__\<close> creates no property: the assignment reaches the setter that
  \<open>Object.prototype\<close> inherits to every object literal, which changes the prototype
  when \<open>v\<close> is an object and does nothing otherwise. Any other new key becomes an own
  property, at its place in the enumeration order.
\<close>

definition js_set :: "string \<Rightarrow> 'v \<Rightarrow> (string \<times> 'v) list \<Rightarrow> (string \<times> 'v) list" where
  "js_set k v obj =
     (if k \<in> set (map fst obj) then replace_value k v obj
      else if k = ''__proto__'' then obj
      else if is_array_index k then insert_index k v obj
      else obj @ [(k, v)])"

text \<open>A sequence of assignments \<open>obj[k] = v\<close>, made one after the other.\<close>

definition apply_writes :: "(string \<times> 'v) list \<Rightarrow> (string \<times> 'v) list \<Rightarrow> (string \<times> 'v) list" where
  "apply_writes obj ws = foldl (\<lambda>obj w. js_set (fst w) (snd w) obj) obj ws"

text \<open>The order of the own keys of an object, and the lists that are such objects.\<close>

definition key_before :: "string \<Rightarrow> string \<Rightarrow> bool" where
  "key_before a b =
     (if is_array_index a then (is_array_index b \<longrightarrow> digits_value a < digits_value b)
      else \<not> is_array_index b)"

definition js_record :: "(string \<times> 'v) list \<Rightarrow> bool" where
  "js_record obj = (distinct (map fst obj) \<and> sorted_wrt key_before (map fst obj))"

subsection \<open>Environments\<close>

text \<open>
  \<open>const [key, ...valueParts] = item.split('=')\<close> and
  \<open>valueParts.join('=') || ''\<close>. The empty-list branch is never taken.
\<close>

definition env_entry :: "string \<Rightarrow> string \<times> string" where
  "env_entry item =
     (case split_on CHR ''='' item of
        [] \<Rightarrow> ([], [])
      | key # valueParts \<Rightarrow> (key, join_with CHR ''='' valueParts))"

text \<open>
  An array is read token by token into a fresh object, whose values are strings; a record
  is returned as it is.
\<close>

definition parseEnvironment :: "environment_ref \<Rightarrow> (string \<times> env_value) list" where
  "parseEnvironment env =
     (case env of
        EnvArray items \<Rightarrow>
          foldl (\<lambda>result item. case env_entry item of (key, v) \<Rightarrow> js_set key (EnvStr v) result)
            [] items
      | EnvRecord r \<Rightarrow> r)"

text \<open>
  The sequence form of a mapping: one token \<open>KEY=VALUE\<close> for each entry, in order, with
  the text of the value. The values that are strings.
\<close>

definition env_tokens :: "(string \<times> env_value) list \<Rightarrow> string list" where
  "env_tokens r = map (\<lambda>(k, v). k @ ''='' @ js_string v) r"

definition is_string :: "env_value \<Rightarrow> bool" where
  "is_string v = (case v of EnvStr s \<Rightarrow> True | EnvNum t \<Rightarrow> False | EnvBool b \<Rightarrow> False
     | EnvNull \<Rightarrow> False)"

subsection \<open>Schema synthesis\<close>

text \<open>
  The \<open>schema\<close> object that \<open>generateMetaYaml\<close> builds and embeds in the metadata
  document: the \<open>required\<close> array and the \<open>properties\<close> object, whose values are
  \<open>{type, title, default?}\<close>. The descriptive fields around it (name, description,
  change log with today's date, links, contributors) and the YAML rendering are not part
  of the model.
\<close>

record Property =
  ptype :: string
  title :: string
  default_value :: "string option"

record Schema =
  required :: "string list"
  properties :: "(string \<times> Property) list"

text \<open>
  What the converter can throw inside the modelled functions. \<open>TypeError\<close>: a property
  is read from \<open>undefined\<close>, which is what \<open>compose.services[serviceName]\<close> gives for a
  name that is not a key of the services. The two others are not errors of the source but
  the limits of the model. \<open>UnsupportedPattern\<close>: a service name, used as the source of
  a regular expression, holds regular-expression syntax that the model does not interpret
  (see \<open>replace_service_name\<close>). \<open>UnsupportedNumber\<close>: a number has to be written
  whose digits the model does not know (see \<open>show_jsnum\<close>).
\<close>

datatype error = TypeError | UnsupportedPattern | UnsupportedNumber

definition initial_schema :: Schema where
  "initial_schema =
     \<lparr>required = [''projectName''],
      properties = [(''projectName'',
        \<lparr>ptype = ''string'', title = ''Project Name'', default_value = None\<rparr>)]\<rparr>"

text \<open>The body of the loop over the normalized environment entries of one service.\<close>

definition add_env_field :: "string \<Rightarrow> Schema \<Rightarrow> string \<times> env_value \<Rightarrow> Schema" where
  "add_env_field serviceName schema entry =
     (case entry of (key, v) \<Rightarrow>
        schema\<lparr>properties :=
          js_set (serviceName @ ''_'' @ key)
            \<lparr>ptype = ''string'', title = serviceName @ '': '' @ key,
             default_value = Some (js_string v)\<rparr>
            (properties schema)\<rparr>)"

text \<open>The body of the loop over \<open>allServices\<close>, after the service has been looked up.\<close>

definition add_service_fields :: "string \<Rightarrow> DockerComposeService \<Rightarrow> Schema \<Rightarrow> Schema" where
  "add_service_fields serviceName service schema =
     (let s1 = schema
            \<lparr>properties :=
               js_set (serviceName @ ''ServiceName'')
                 \<lparr>ptype = ''string'', title = serviceName @ '' Service Name'',
                  default_value = Some serviceName\<rparr>
                 (properties schema),
             required := required schema @ [serviceName @ ''ServiceName'']\<rparr>;
          s2 = (case image_opt service of
                  None \<Rightarrow> s1
                | Some i \<Rightarrow>
                    if i = [] then s1
                    else s1
                      \<lparr>properties :=
                         js_set (serviceName @ ''ServiceImage'')
                           \<lparr>ptype = ''string'', title = serviceName @ '' Docker Image'',
                            default_value = Some i\<rparr>
                           (properties s1),
                       required := required s1 @ [serviceName @ ''ServiceImage'']\<rparr>)
      in case environment_opt service of
           None \<Rightarrow> s2
         | Some env \<Rightarrow> foldl (add_env_field serviceName) s2 (parseEnvironment env))"

fun schema_loop ::
  "(string \<times> DockerComposeService) list \<Rightarrow> string list \<Rightarrow> Schema \<Rightarrow> error + Schema" where
  "schema_loop services [] schema = Inr schema"
| "schema_loop services (serviceName # rest) schema =
     (case map_of services serviceName of
        None \<Rightarrow> Inl TypeError
      | Some service \<Rightarrow> schema_loop services rest (add_service_fields serviceName service schema))"

definition generateMetaYaml_schema ::
  "(string \<times> DockerComposeService) list \<Rightarrow> Analysis \<Rightarrow> error + Schema" where
  "generateMetaYaml_schema services analysis =
     schema_loop services
       (databases analysis @ apps analysis @ otherServices analysis) initial_schema"

text \<open>
  The assignments \<open>schema.properties[field] = {...}\<close> that the loop body makes for one
  service, in the order it makes them; and those of the whole loop.
\<close>

definition service_writes :: "string \<Rightarrow> DockerComposeService \<Rightarrow> (string \<times> Property) list" where
  "service_writes serviceName service =
     [(serviceName @ ''ServiceName'',
       \<lparr>ptype = ''string'', title = serviceName @ '' Service Name'',
        default_value = Some serviceName\<rparr>)]
     @ (case image_opt service of
          None \<Rightarrow> []
        | Some i \<Rightarrow>
            if i = [] then []
            else [(serviceName @ ''ServiceImage'',
                   \<lparr>ptype = ''string'', title = serviceName @ '' Docker Image'',
                    default_value = Some i\<rparr>)])
     @ (case environment_opt service of
          None \<Rightarrow> []
        | Some env \<Rightarrow>
            map (\<lambda>(key, v). (serviceName @ ''_'' @ key,
                   \<lparr>ptype = ''string'', title = serviceName @ '': '' @ key,
                    default_value = Some (js_string v)\<rparr>))
              (parseEnvironment env))"

definition schema_writes ::
  "(string \<times> DockerComposeService) list \<Rightarrow> Analysis \<Rightarrow> (string \<times> Property) list" where
  "schema_writes services analysis =
     concat (map (\<lambda>n. case map_of services n of None \<Rightarrow> [] | Some s \<Rightarrow> service_writes n s)
       (databases analysis @ apps analysis @ otherServices analysis))"

definition schema_property :: "error + Schema \<Rightarrow> string \<Rightarrow> Property option" where
  "schema_property r k = (case r of Inl e \<Rightarrow> None | Inr s \<Rightarrow> map_of (properties s) k)"

subsection \<open>Interpolation of environment values\<close>

definition bsl :: char where
  "bsl = CHR 0x5C"

text \<open>
  \<open>new RegExp(dbName, 'g')\<close> reads the service name as the source of a regular
  expression. The model interprets the patterns made of literal characters and of the
  wildcard \<open>.\<close>, which stands for a character other than a line terminator; these
  include every name over letters, digits, \<open>.\<close>, \<open>_\<close> and \<open>-\<close>. For the empty
  pattern and for a pattern with another syntax character the source either throws
  \<open>SyntaxError\<close> or matches by that syntax; the model answers \<open>UnsupportedPattern\<close>.
\<close>

definition regexp_syntax :: "char \<Rightarrow> bool" where
  "regexp_syntax c = (c \<in> set (bsl # ''^$*+?()[]{}|''))"

definition supported_pattern :: "string \<Rightarrow> bool" where
  "supported_pattern pat = (pat \<noteq> [] \<and> list_all (\<lambda>c. \<not> regexp_syntax c) pat)"

definition line_terminator :: "char \<Rightarrow> bool" where
  "line_terminator c = (c = CHR 0x0A \<or> c = CHR 0x0D)"

fun match_here :: "string \<Rightarrow> string \<Rightarrow> bool" where
  "match_here [] s = True"
| "match_here (p # ps) [] = False"
| "match_here (p # ps) (c # cs) =
     ((if p = CHR ''.'' then \<not> line_terminator c else c = p) \<and> match_here ps cs)"

text \<open>
  \<open>s.replace(regexp, rep)\<close> for a global regular expression whose matches all have the
  length of the pattern: the matches are found from left to right and do not overlap. The
  number counts the characters of the last match that are still to be skipped.
\<close>

fun replace_matches :: "string \<Rightarrow> string \<Rightarrow> nat \<Rightarrow> string \<Rightarrow> string" where
  "replace_matches pat rep n [] = []"
| "replace_matches pat rep (Suc n) (c # cs) = replace_matches pat rep n cs"
| "replace_matches pat rep 0 (c # cs) =
     (if match_here pat (c # cs) then rep @ replace_matches pat rep (length pat - 1) cs
      else c # replace_matches pat rep 0 cs)"

text \<open>
  The replacement text \<open>`$(PROJECT_NAME)_\${input.${dbName}ServiceName}`\<close>. As a
  replacement string it is taken literally when the name holds no \<open>$\<close>: its own two
  \<open>$\<close> are followed by \<open>(\<close> and \<open>{\<close>.
\<close>

definition symbolic_reference :: "string \<Rightarrow> string" where
  "symbolic_reference dbName = ''$(PROJECT_NAME)_${input.'' @ dbName @ ''ServiceName}''"

definition replace_service_name :: "string \<Rightarrow> string \<Rightarrow> error + string" where
  "replace_service_name dbName strValue =
     (if supported_pattern dbName
      then Inr (replace_matches dbName (symbolic_reference dbName) 0 strValue)
      else Inl UnsupportedPattern)"

text \<open>The loop over \<open>Object.entries(dbPasswords)\<close>.\<close>

fun interpolate_loop :: "(string \<times> string) list \<Rightarrow> string \<Rightarrow> error + string" where
  "interpolate_loop [] strValue = Inr strValue"
| "interpolate_loop ((dbName, passwordVar) # rest) strValue =
     (case replace_service_name dbName strValue of
        Inl e \<Rightarrow> Inl e
      | Inr s \<Rightarrow> interpolate_loop rest s)"

text \<open>\<open>s.replace(/c/g, '\\c')\<close>: a backslash before every \<open>c\<close>.\<close>

definition escape_char :: "char \<Rightarrow> string \<Rightarrow> string" where
  "escape_char c s = concat (map (\<lambda>x. if x = c then [bsl, x] else [x]) s)"

definition interpolateEnvValue :: "env_value \<Rightarrow> (string \<times> string) list \<Rightarrow> error + string" where
  "interpolateEnvValue v dbPasswords =
     (case interpolate_loop dbPasswords (js_string v) of
        Inl e \<Rightarrow> Inl e
      | Inr strValue \<Rightarrow> Inr (escape_char CHR ''$'' (escape_char CHR ''`'' strValue)))"

subsection \<open>The source text of one application service\<close>

text \<open>The loop over the entries of the normalized environment.\<close>

fun env_loop ::
  "(string \<times> string) list \<Rightarrow> (string \<times> env_value) list \<Rightarrow> string \<Rightarrow> error + string" where
  "env_loop dbPasswords [] code = Inr code"
| "env_loop dbPasswords ((key, v) # rest) code =
     (case interpolateEnvValue v dbPasswords of
        Inl e \<Rightarrow> Inl e
      | Inr interpolatedValue \<Rightarrow>
          env_loop dbPasswords rest
            (code @ ''        `'' @ key @ ''='' @ interpolatedValue @ ''`,\<newline>''))"

definition source_code :: "string \<Rightarrow> DockerComposeService \<Rightarrow> string" where
  \<open>source_code serviceName service =
     (if truthy_str (image_opt service) then
        ''      source: {\<newline>'' @
        ''        type: "image",\<newline>'' @
        ''        image: input.'' @ serviceName @ ''ServiceImage,\<newline>'' @
        ''      },\<newline>''
      else if truthy_build (build_opt service) then
        ''      // TODO: Configure build source\<newline>'' @
        ''      source: {\<newline>'' @
        ''        type: "image",\<newline>'' @
        ''        image: "REPLACE_WITH_IMAGE",\<newline>'' @
        ''      },\<newline>''
      else [])\<close>

text \<open>The body of the loop over \<open>service.volumes\<close>.\<close>

definition mount_entry :: "string \<Rightarrow> string" where
  \<open>mount_entry volume =
     (let parsed = parseVolume volume in
      case vtype parsed of
        Volume \<Rightarrow>
          ''        {\<newline>'' @
          ''          type: "volume",\<newline>'' @
          ''          name: "'' @ vname parsed @ ''",\<newline>'' @
          ''          mountPath: "'' @ containerPath parsed @ ''",\<newline>'' @
          ''        },\<newline>''
      | Bind \<Rightarrow> ''        // TODO: Handle bind mount: '' @ volume @ ''\<newline>'')\<close>

definition mounts_code :: "DockerComposeService \<Rightarrow> string" where
  "mounts_code service =
     (case volumes_opt service of
        None \<Rightarrow> []
      | Some vs \<Rightarrow>
          if vs = [] then []
          else ''      mounts: [\<newline>'' @
               foldl (\<lambda>code volume. code @ mount_entry volume) [] vs @
               ''      ],\<newline>'')"

text \<open>
  A number inside a template literal: \<open>NaN\<close>, or the decimal digits of an integer of
  magnitude \<open>2 ^ 53\<close> at most. The digits of a greater number (the source writes an
  exponent from \<open>10 ^ 21\<close> on) are not in the model.
\<close>

function show_digits :: "int \<Rightarrow> string" where
  "show_digits n =
     (if n < 10 then [''0123456789'' ! nat n]
      else show_digits (n div 10) @ [''0123456789'' ! nat (n mod 10)])"
  by pat_completeness auto
termination
  by (relation "measure nat") auto

definition show_jsnum :: "jsnum \<Rightarrow> error + string" where
  "show_jsnum x =
     (case x of
        NaN \<Rightarrow> Inr ''NaN''
      | Num n \<Rightarrow>
          if n < - max_exact \<or> max_exact < n then Inl UnsupportedNumber
          else if n < 0 then Inr (''-'' @ show_digits (- n))
          else Inr (show_digits n)
      | Beyond \<Rightarrow> Inl UnsupportedNumber)"

definition domains_code :: "DockerComposeService \<Rightarrow> error + string" where
  \<open>domains_code service =
     (case ports_opt service of
        None \<Rightarrow> Inr []
      | Some [] \<Rightarrow> Inr []
      | Some (first # others) \<Rightarrow>
          (case parsePort first of
             None \<Rightarrow> Inr []
           | Some firstPort \<Rightarrow>
               (case show_jsnum (containerPort firstPort) of
                  Inl e \<Rightarrow> Inl e
                | Inr port \<Rightarrow>
                    Inr (''      domains: [\<newline>'' @
                         ''        {\<newline>'' @
                         ''          host: "$(EASYPANEL_DOMAIN)",\<newline>'' @
                         ''          port: '' @ port @ '',\<newline>'' @
                         ''        },\<newline>'' @
                         ''      ],\<newline>''))))\<close>

text \<open>The services whose first port, when it is written, is written by the model.\<close>

definition modelled_port :: "DockerComposeService \<Rightarrow> bool" where
  "modelled_port service = (case domains_code service of Inl e \<Rightarrow> False | Inr d \<Rightarrow> True)"

definition deploy_code :: "DockerComposeService \<Rightarrow> string" where
  \<open>deploy_code service =
     (if truthy_command (command_opt service) then
        (let command = (case command_opt service of
                          Some (CommandList xs) \<Rightarrow> join_with CHR '' '' xs
                        | Some (CommandStr s) \<Rightarrow> s
                        | None \<Rightarrow> []);
             escapedCommand = escape_char CHR ''"'' command
         in ''      deploy: {\<newline>'' @
            ''        command: "'' @ escapedCommand @ ''",\<newline>'' @
            ''      },\<newline>'')
      else [])\<close>

definition generateAppServiceCode ::
  "string \<Rightarrow> DockerComposeService \<Rightarrow> (string \<times> string) list \<Rightarrow> error + string" where
  \<open>generateAppServiceCode serviceName service dbPasswords =
     (let code = ''  // '' @ serviceName @ '' Service\<newline>'' @
                 ''  services.push({\<newline>'' @
                 ''    type: "app",\<newline>'' @
                 ''    data: {\<newline>'' @
                 ''      serviceName: input.'' @ serviceName @ ''ServiceName,\<newline>'';
          envVars = parseEnvironment
            (case environment_opt service of None \<Rightarrow> EnvRecord [] | Some env \<Rightarrow> env)
      in case (if envVars \<noteq> []
               then (case env_loop dbPasswords envVars (code @ ''      env: [\<newline>'') of
                       Inl e \<Rightarrow> Inl e
                     | Inr c \<Rightarrow> Inr (c @ ''      ].join("'' @ [bsl] @ ''n"),\<newline>''))
               else Inr code) of
           Inl e \<Rightarrow> Inl e
         | Inr c \<Rightarrow>
             (case domains_code service of
                Inl e \<Rightarrow> Inl e
              | Inr domains \<Rightarrow>
                  Inr (c @ source_code serviceName service @ mounts_code service @
                       domains @ deploy_code service @
                       ''    },\<newline>'' @
                       ''  });\<newline>\<newline>'')))\<close>

subsection \<open>The generator source text\<close>

definition sanitizeVarName :: "string \<Rightarrow> string" where
  "sanitizeVarName n = map (\<lambda>c. if c = CHR ''-'' then CHR ''_'' else c) n"

definition detectDatabaseType :: "string \<Rightarrow> string option" where
  "detectDatabaseType img =
     (let lower = toLowerCase img in
      if includes_str lower ''postgres'' then Some ''postgres''
      else if includes_str lower ''mysql'' then Some ''mysql''
      else if includes_str lower ''mariadb'' then Some ''mariadb''
      else if includes_str lower ''mongo'' then Some ''mongo''
      else if includes_str lower ''redis'' then Some ''redis''
      else None)"

definition index_header :: string where
  \<open>index_header =
     ''import { Output, randomPassword, Services } from "~templates-utils";\<newline>'' @
     ''import { Input } from "./meta";\<newline>\<newline>'' @
     ''export function generate(input: Input): Output {\<newline>'' @
     ''  const services: Services = [];\<newline>\<newline>''\<close>

text \<open>
  The first loop over \<open>analysis.databases\<close>: it fills \<open>dbPasswords\<close> and writes one
  \<open>const\<close> statement for each database.
\<close>

fun password_loop ::
  "string list \<Rightarrow> (string \<times> string) list \<times> string \<Rightarrow> (string \<times> string) list \<times> string" where
  "password_loop [] st = st"
| "password_loop (dbName # rest) (dbPasswords, code) =
     (let varName = sanitizeVarName dbName @ ''Password''
      in password_loop rest
           (js_set dbName varName dbPasswords,
            code @ ''  const '' @ varName @ '' = randomPassword();\<newline>''))"

text \<open>
  \<open>${dbPasswords[dbName]}\<close> inside a template literal: the own property; for
  \<open>__proto__\<close> without an own property the prototype object, written
  \<open>[object Object]\<close>; \<open>undefined\<close> for a name that the object neither owns nor inherits.
  The names that \<open>Object.prototype\<close> provides otherwise (\<open>constructor\<close>, \<open>toString\<close>,
  ...) do not reach this place: every database name but \<open>__proto__\<close> is an own key of
  \<open>dbPasswords\<close> (see \<open>password_loop_lookup\<close>).
\<close>

definition js_get_text :: "(string \<times> string) list \<Rightarrow> string \<Rightarrow> string" where
  "js_get_text obj k =
     (case map_of obj k of
        Some v \<Rightarrow> v
      | None \<Rightarrow> if k = ''__proto__'' then ''[object Object]'' else ''undefined'')"

text \<open>The second loop over \<open>analysis.databases\<close>.\<close>

fun database_loop ::
  "(string \<times> DockerComposeService) list \<Rightarrow> (string \<times> string) list \<Rightarrow> string list \<Rightarrow> string
     \<Rightarrow> error + string" where
  \<open>database_loop services dbPasswords [] code = Inr code\<close>
| \<open>database_loop services dbPasswords (dbName # rest) code =
     (case map_of services dbName of
        None \<Rightarrow> Inl TypeError
      | Some service \<Rightarrow>
          (let dbType = detectDatabaseType
                 (case image_opt service of None \<Rightarrow> [] | Some i \<Rightarrow> i);
               code1 = code @ ''  // '' @ dbName @ '' Service ('' @
                 (case dbType of None \<Rightarrow> ''database'' | Some t \<Rightarrow> t) @ '')\<newline>''
           in case dbType of
                None \<Rightarrow>
                  (case generateAppServiceCode dbName service dbPasswords of
                     Inl e \<Rightarrow> Inl e
                   | Inr c \<Rightarrow> database_loop services dbPasswords rest (code1 @ c))
              | Some t \<Rightarrow>
                  if t \<in> set [''postgres'', ''mysql'', ''mariadb'', ''mongo'', ''redis'']
                  then database_loop services dbPasswords rest
                         (code1 @
                          ''  services.push({\<newline>'' @
                          ''    type: "'' @ t @ ''",\<newline>'' @
                          ''    data: {\<newline>'' @
                          ''      serviceName: input.'' @ dbName @ ''ServiceName,\<newline>'' @
                          ''      password: '' @ js_get_text dbPasswords dbName @ '',\<newline>'' @
                          ''    },\<newline>'' @
                          ''  });\<newline>\<newline>'')
                  else (case generateAppServiceCode dbName service dbPasswords of
                          Inl e \<Rightarrow> Inl e
                        | Inr c \<Rightarrow> database_loop services dbPasswords rest (code1 @ c))))\<close>

text \<open>The loops over \<open>analysis.apps\<close> and over \<open>analysis.otherServices\<close>.\<close>

fun app_loop ::
  "(string \<times> DockerComposeService) list \<Rightarrow> (string \<times> string) list \<Rightarrow> string list \<Rightarrow> string
     \<Rightarrow> error + string" where
  "app_loop services dbPasswords [] code = Inr code"
| "app_loop services dbPasswords (appName # rest) code =
     (case map_of services appName of
        None \<Rightarrow> Inl TypeError
      | Some service \<Rightarrow>
          (case generateAppServiceCode appName service dbPasswords of
             Inl e \<Rightarrow> Inl e
           | Inr c \<Rightarrow> app_loop services dbPasswords rest (code @ c)))"

text \<open>\<open>generateIndexTs\<close>; the parameter \<open>slug\<close> is not read by the source.\<close>

definition generateIndexTs ::
  "(string \<times> DockerComposeService) list \<Rightarrow> Analysis \<Rightarrow> error + string" where
  "generateIndexTs services analysis =
     (case password_loop (databases analysis) ([], index_header) of
        (dbPasswords, code) \<Rightarrow>
          (case database_loop services dbPasswords (databases analysis)
                  (if databases analysis \<noteq> [] then code @ ''\<newline>'' else code) of
             Inl e \<Rightarrow> Inl e
           | Inr code2 \<Rightarrow>
               (case app_loop services dbPasswords (apps analysis) code2 of
                  Inl e \<Rightarrow> Inl e
                | Inr code3 \<Rightarrow>
                    (case app_loop services dbPasswords (otherServices analysis) code3 of
                       Inl e \<Rightarrow> Inl e
                     | Inr code4 \<Rightarrow>
                         Inr (code4 @ ''  return { services };\<newline>'' @ ''}\<newline>'')))))"

subsection \<open>Statements of the generator source text\<close>

text \<open>
  The secret-generation statement of a database service; the runtime-name reference and
  the secret reference that a service declaration carries.
\<close>

definition secret_statement :: "string \<Rightarrow> string" where
  "secret_statement dbName =
     ''  const '' @ sanitizeVarName dbName @ ''Password = randomPassword();\<newline>''"

definition runtime_name_reference :: "string \<Rightarrow> string" where
  "runtime_name_reference serviceName = ''serviceName: input.'' @ serviceName @ ''ServiceName,''"

definition secret_reference :: "string \<Rightarrow> string" where
  "secret_reference dbName = ''password: '' @ sanitizeVarName dbName @ ''Password,''"

text \<open>
  The declaration of a database service of the engine \<open>t\<close>: the comment, and a
  \<open>services.push\<close> of that type whose data are the runtime-name reference and the
  secret reference.
\<close>

definition database_block :: "string \<Rightarrow> string \<Rightarrow> string" where
  \<open>database_block t dbName =
     ''  // '' @ dbName @ '' Service ('' @ t @ '')\<newline>'' @
     ''  services.push({\<newline>'' @
     ''    type: "'' @ t @ ''",\<newline>'' @
     ''    data: {\<newline>'' @
     ''      '' @ runtime_name_reference dbName @ ''\<newline>'' @
     ''      '' @ secret_reference dbName @ ''\<newline>'' @
     ''    },\<newline>'' @
     ''  });\<newline>\<newline>''\<close>

text \<open>The lines that open the declaration of an application service.\<close>

definition application_head :: "string \<Rightarrow> string" where
  \<open>application_head serviceName =
     ''  // '' @ serviceName @ '' Service\<newline>'' @
     ''  services.push({\<newline>'' @
     ''    type: "app",\<newline>'' @
     ''    data: {\<newline>'' @
     ''      '' @ runtime_name_reference serviceName @ ''\<newline>''\<close>

definition index_footer :: string where
  "index_footer = ''  return { services };\<newline>'' @ ''}\<newline>''"

text \<open>
  The object \<open>dbPasswords\<close> of the database names \<open>dbs\<close> with the empty text in the
  place of every secret variable: it has the keys of \<open>dbPasswords\<close> and names no secret.
\<close>

definition secret_free :: "string list \<Rightarrow> (string \<times> string) list" where
  "secret_free dbs = apply_writes [] (map (\<lambda>d. (d, [])) dbs)"

text \<open>
  A piece of text is the declaration of the service \<open>serviceName\<close> as an application,
  in a document whose database services are \<open>dbs\<close>: it is the text that
  \<open>generateAppServiceCode\<close> writes for the service when no secret is named.
\<close>

definition application_declaration ::
  "(string \<times> DockerComposeService) list \<Rightarrow> string list \<Rightarrow> string \<Rightarrow> string \<Rightarrow> bool" where
  "application_declaration services dbs serviceName decl =
     (case map_of services serviceName of
        None \<Rightarrow> False
      | Some service \<Rightarrow> generateAppServiceCode serviceName service (secret_free dbs) = Inr decl)"

text \<open>
  A piece of text is the declaration of the database service \<open>dbName\<close>. When
  \<open>detectDatabaseType\<close> finds the engine \<open>t\<close> in the image, it is the database block
  of that engine, with the secret reference (for the name \<open>__proto__\<close> only its comment
  and its runtime-name reference are stated). When \<open>detectDatabaseType\<close> finds no engine,
  it is the comment of the database followed by the declaration of the service as an
  application.
\<close>

definition database_declaration ::
  "(string \<times> DockerComposeService) list \<Rightarrow> string list \<Rightarrow> string \<Rightarrow> string \<Rightarrow> bool" where
  \<open>database_declaration services dbs dbName decl =
     (case map_of services dbName of
        None \<Rightarrow> False
      | Some service \<Rightarrow>
          (case detectDatabaseType (case image_opt service of None \<Rightarrow> [] | Some i \<Rightarrow> i) of
             Some t \<Rightarrow>
               if dbName = ''__proto__''
               then prefix (''  // '' @ dbName @ '' Service ('' @ t @ '')\<newline>'') decl
                    \<and> includes_str decl (runtime_name_reference dbName)
               else decl = database_block t dbName
           | None \<Rightarrow>
               (case generateAppServiceCode dbName service (secret_free dbs) of
                  Inl e \<Rightarrow> False
                | Inr c \<Rightarrow> decl = ''  // '' @ dbName @ '' Service (database)\<newline>'' @ c)))\<close>

subsection \<open>Example documents\<close>

definition no_fields :: DockerComposeService where
  "no_fields = \<lparr>image_opt = None, build_opt = None, command_opt = None,
     environment_opt = None, ports_opt = None, volumes_opt = None\<rparr>"

definition with_image :: "string \<Rightarrow> DockerComposeService" where
  "with_image i = no_fields\<lparr>image_opt := Some i\<rparr>"

text \<open>Three services: a database, an application and a service with no image.\<close>

definition three_services :: "(string \<times> DockerComposeService) list" where
  "three_services =
     [(''db'', with_image ''postgres:15''), (''api'', with_image ''node:20''),
      (''ext'', no_fields)]"

text \<open>A keyword that appears only across the junction of image and name.\<close>

definition junction_service :: DockerComposeService where
  "junction_service = with_image ''tools/redi''"

text \<open>
  Two services whose environment fields meet at one key: \<open>a\<close> with the variable
  \<open>b_c\<close>, and \<open>a_b\<close> with the variable \<open>c\<close>.
\<close>

definition collide_services :: "(string \<times> DockerComposeService) list" where
  "collide_services =
     [(''a'', (with_image ''nginx'')\<lparr>environment_opt := Some (EnvRecord [(''b_c'', EnvStr ''first'')])\<rparr>),
      (''a_b'', (with_image ''nginx'')\<lparr>environment_opt := Some (EnvRecord [(''c'', EnvStr ''second'')])\<rparr>)]"

text \<open>An environment in its mapping form; the value of the first variable holds \<open>=\<close>.\<close>

definition sample_env :: "(string \<times> env_value) list" where
  "sample_env = [(''JAVA_OPTS'', EnvStr ''-Dmode=prod''), (''DEBUG'', EnvStr [])]"

text \<open>An environment in its mapping form with a number, a boolean and an empty value.\<close>

definition scalar_env :: "(string \<times> env_value) list" where
  "scalar_env = [(''PORT'', EnvNum ''3000''), (''DEBUG'', EnvBool True), (''TZ'', EnvNull)]"

text \<open>
  The database-detection scenario: \<open>db\<close> with the image \<open>postgres:15\<close>, and
  \<open>api\<close> whose variable \<open>DATABASE_URL\<close> names \<open>db\<close> as its host.
\<close>

definition db_api_services :: "(string \<times> DockerComposeService) list" where
  "db_api_services =
     [(''db'', with_image ''postgres:15''),
      (''api'', (with_image ''node:20'')
         \<lparr>environment_opt := Some (EnvRecord [(''DATABASE_URL'', EnvStr ''pg://db:5432/app'')])\<rparr>)]"

text \<open>One service that the classifier takes for a database by the keyword \<open>elasticsearch\<close>.\<close>

definition search_services :: "(string \<times> DockerComposeService) list" where
  "search_services = [(''search'', with_image ''elasticsearch:8.11.0'')]"

text \<open>The generator source text that the source writes for \<open>db_api_services\<close>.\<close>

definition db_api_index_ts :: string where
  \<open>db_api_index_ts =
     ''import { Output, randomPassword, Services } from "~templates-utils";\<newline>'' @
     ''import { Input } from "./meta";\<newline>'' @
     ''\<newline>'' @
     ''export function generate(input: Input): Output {\<newline>'' @
     ''  const services: Services = [];\<newline>'' @
     ''\<newline>'' @
     ''  const dbPassword = randomPassword();\<newline>'' @
     ''\<newline>'' @
     ''  // db Service (postgres)\<newline>'' @
     ''  services.push({\<newline>'' @
     ''    type: "postgres",\<newline>'' @
     ''    data: {\<newline>'' @
     ''      serviceName: input.dbServiceName,\<newline>'' @
     ''      password: dbPassword,\<newline>'' @
     ''    },\<newline>'' @
     ''  });\<newline>'' @
     ''\<newline>'' @
     ''  // api Service\<newline>'' @
     ''  services.push({\<newline>'' @
     ''    type: "app",\<newline>'' @
     ''    data: {\<newline>'' @
     ''      serviceName: input.apiServiceName,\<newline>'' @
     ''      env: [\<newline>'' @
     ''        `DATABASE_URL=pg://'' @ [bsl] @ ''$(PROJECT_NAME)_'' @ [bsl] @
                 ''${input.dbServiceName}:5432/app`,\<newline>'' @
     ''      ].join("'' @ [bsl] @ ''n"),\<newline>'' @
     ''      source: {\<newline>'' @
     ''        type: "image",\<newline>'' @
     ''        image: input.apiServiceImage,\<newline>'' @
     ''      },\<newline>'' @
     ''    },\<newline>'' @
     ''  });\<newline>'' @
     ''\<newline>'' @
     ''  return { services };\<newline>'' @
     ''}\<newline>''\<close>

text \<open>
  What the source writes for \<open>search_services\<close> after the header, the secret statement
  and the empty line.
\<close>

definition search_index_ts_tail :: string where
  \<open>search_index_ts_tail =
     ''  // search Service (database)\<newline>'' @
     ''  // search Service\<newline>'' @
     ''  services.push({\<newline>'' @
     ''    type: "app",\<newline>'' @
     ''    data: {\<newline>'' @
     ''      serviceName: input.searchServiceName,\<newline>'' @
     ''      source: {\<newline>'' @
     ''        type: "image",\<newline>'' @
     ''        image: input.searchServiceImage,\<newline>'' @
     ''      },\<newline>'' @
     ''    },\<newline>'' @
     ''  });\<newline>'' @
     ''\<newline>'' @
     ''  return { services };\<newline>'' @
     ''}\<newline>''\<close>

text \<open>
  Three services: \<open>db\<close> with the image \<open>postgres:15\<close>, \<open>search\<close> with the image
  \<open>elasticsearch:8.11.0\<close>, and \<open>api\<close> whose variable \<open>DATABASE_URL\<close> names \<open>db\<close>;
  and the generator source text that the source writes for them.
\<close>

definition db_search_api_services :: "(string \<times> DockerComposeService) list" where
  "db_search_api_services =
     [(''db'', with_image ''postgres:15''),
      (''search'', with_image ''elasticsearch:8.11.0''),
      (''api'', (with_image ''node:20'')
         \<lparr>environment_opt := Some (EnvRecord [(''DATABASE_URL'', EnvStr ''pg://db:5432/app'')])\<rparr>)]"

definition db_search_api_index_ts :: string where
  \<open>db_search_api_index_ts =
     ''import { Output, randomPassword, Services } from "~templates-utils";\<newline>'' @
     ''import { Input } from "./meta";\<newline>'' @
     ''\<newline>'' @
     ''export function generate(input: Input): Output {\<newline>'' @
     ''  const services: Services = [];\<newline>'' @
     ''\<newline>'' @
     ''  const dbPassword = randomPassword();\<newline>'' @
     ''  const searchPassword = randomPassword();\<newline>'' @
     ''\<newline>'' @
     ''  // db Service (postgres)\<newline>'' @
     ''  services.push({\<newline>'' @
     ''    type: "postgres",\<newline>'' @
     ''    data: {\<newline>'' @
     ''      serviceName: input.dbServiceName,\<newline>'' @
     ''      password: dbPassword,\<newline>'' @
     ''    },\<newline>'' @
     ''  });\<newline>'' @
     ''\<newline>'' @
     ''  // search Service (database)\<newline>'' @
     ''  // search Service\<newline>'' @
     ''  services.push({\<newline>'' @
     ''    type: "app",\<newline>'' @
     ''    data: {\<newline>'' @
     ''      serviceName: input.searchServiceName,\<newline>'' @
     ''      source: {\<newline>'' @
     ''        type: "image",\<newline>'' @
     ''        image: input.searchServiceImage,\<newline>'' @
     ''      },\<newline>'' @
     ''    },\<newline>'' @
     ''  });\<newline>'' @
     ''\<newline>'' @
     ''  // api Service\<newline>'' @
     ''  services.push({\<newline>'' @
     ''    type: "app",\<newline>'' @
     ''    data: {\<newline>'' @
     ''      serviceName: input.apiServiceName,\<newline>'' @
     ''      env: [\<newline>'' @
     ''        `DATABASE_URL=pg://'' @ [bsl] @ ''$(PROJECT_NAME)_'' @ [bsl] @
                 ''${input.dbServiceName}:5432/app`,\<newline>'' @
     ''      ].join("'' @ [bsl] @ ''n"),\<newline>'' @
     ''      source: {\<newline>'' @
     ''        type: "image",\<newline>'' @
     ''        image: input.apiServiceImage,\<newline>'' @
     ''      },\<newline>'' @
     ''    },\<newline>'' @
     ''  });\<newline>'' @
     ''\<newline>'' @
     ''  return { services };\<newline>'' @
     ''}\<newline>''\<close>

text \<open>A service whose one volume token has no colon, and the mounts written for it.\<close>

definition bare_volume_service :: DockerComposeService where
  "bare_volume_service = (with_image ''nginx'')\<lparr>volumes_opt := Some [''data'']\<rparr>"

definition bare_volume_mounts :: string where
  \<open>bare_volume_mounts =
     ''      mounts: [\<newline>'' @
     ''        {\<newline>'' @
     ''          type: "volume",\<newline>'' @
     ''          name: "unknown",\<newline>'' @
     ''          mountPath: "data",\<newline>'' @
     ''        },\<newline>'' @
     ''      ],\<newline>''\<close>

section \<open>Properties\<close>

subsection \<open>Strings\<close>

lemma split_on_not_Nil: "split_on d s \<noteq> []"
  by (induction s) (auto split: list.splits)

lemma includes_iff: "includes_str s pat \<longleftrightarrow> (\<exists>xs ys. s = xs @ pat @ ys)"
proof (induction s)
  case Nil
  then show ?case by auto
next
  case (Cons c cs)
  show ?case
  proof
    assume "includes_str (c # cs) pat"
    then consider "prefix pat (c # cs)" | "includes_str cs pat" by auto
    then show "\<exists>xs ys. c # cs = xs @ pat @ ys"
    proof cases
      case 1
      then obtain ys where "c # cs = pat @ ys" by (auto simp: prefix_def)
      then have "c # cs = [] @ pat @ ys" by simp
      then show ?thesis by blast
    next
      case 2
      with Cons obtain xs ys where "cs = xs @ pat @ ys" by auto
      then have "c # cs = (c # xs) @ pat @ ys" by simp
      then show ?thesis by blast
    qed
  next
    assume "\<exists>xs ys. c # cs = xs @ pat @ ys"
    then obtain xs ys where e: "c # cs = xs @ pat @ ys" by blast
    show "includes_str (c # cs) pat"
    proof (cases xs)
      case Nil
      with e have "prefix pat (c # cs)" by (simp add: prefix_def)
      then show ?thesis by simp
    next
      case (Cons x xs')
      with e have "cs = xs' @ pat @ ys" by simp
      with Cons.IH have "includes_str cs pat" by blast
      then show ?thesis by simp
    qed
  qed
qed

subsection \<open>Classification\<close>

lemma analyze_step_databases:
  "databases (analyze_step a (n, s)) = databases a @ (if isDb n s then [n] else [])"
  by simp

lemma analyze_step_apps:
  "apps (analyze_step a (n, s)) =
     apps a @ (if \<not> isDb n s \<and> (truthy_str (image_opt s) \<or> truthy_build (build_opt s))
               then [n] else [])"
  by simp

lemma analyze_step_others:
  "otherServices (analyze_step a (n, s)) =
     otherServices a @
       (if \<not> isDb n s \<and> \<not> (truthy_str (image_opt s) \<or> truthy_build (build_opt s))
        then [n] else [])"
  by simp

lemma analyze_foldl_databases:
  "databases (foldl analyze_step a services) =
     databases a @ map fst (filter (\<lambda>(n, s). isDb n s) services)"
proof (induction services arbitrary: a)
  case Nil
  then show ?case by simp
next
  case (Cons p ps)
  obtain n s where p: "p = (n, s)" by (cases p)
  show ?case
    unfolding p foldl_Cons Cons.IH analyze_step_databases by simp
qed

lemma analyze_foldl_apps:
  "apps (foldl analyze_step a services) =
     apps a @ map fst (filter (\<lambda>(n, s). \<not> isDb n s \<and>
        (truthy_str (image_opt s) \<or> truthy_build (build_opt s))) services)"
proof (induction services arbitrary: a)
  case Nil
  then show ?case by simp
next
  case (Cons p ps)
  obtain n s where p: "p = (n, s)" by (cases p)
  show ?case
    unfolding p foldl_Cons Cons.IH analyze_step_apps by simp
qed

lemma analyze_foldl_others:
  "otherServices (foldl analyze_step a services) =
     otherServices a @ map fst (filter (\<lambda>(n, s). \<not> isDb n s \<and>
        \<not> (truthy_str (image_opt s) \<or> truthy_build (build_opt s))) services)"
proof (induction services arbitrary: a)
  case Nil
  then show ?case by simp
next
  case (Cons p ps)
  obtain n s where p: "p = (n, s)" by (cases p)
  show ?case
    unfolding p foldl_Cons Cons.IH analyze_step_others by simp
qed

lemma databases_analyze:
  "databases (analyzeServices services) = map fst (filter (\<lambda>(n, s). isDb n s) services)"
  by (simp add: analyzeServices_def analyze_foldl_databases)

lemma apps_analyze:
  "apps (analyzeServices services) =
     map fst (filter (\<lambda>(n, s). \<not> isDb n s \<and>
        (truthy_str (image_opt s) \<or> truthy_build (build_opt s))) services)"
  by (simp add: analyzeServices_def analyze_foldl_apps)

lemma others_analyze:
  "otherServices (analyzeServices services) =
     map fst (filter (\<lambda>(n, s). \<not> isDb n s \<and>
        \<not> (truthy_str (image_opt s) \<or> truthy_build (build_opt s))) services)"
  by (simp add: analyzeServices_def analyze_foldl_others)

lemma subseq_map_filter: "subseq (map f (filter P xs)) (map f xs)"
  by (induction xs) auto

lemma distinct_fst_filter_disjoint:
  assumes "distinct (map fst xs)" and "\<And>x. x \<in> set xs \<Longrightarrow> \<not> (P x \<and> Q x)"
  shows "set (map fst (filter P xs)) \<inter> set (map fst (filter Q xs)) = {}"
proof (rule ccontr)
  assume "set (map fst (filter P xs)) \<inter> set (map fst (filter Q xs)) \<noteq> {}"
  then obtain k where "k \<in> set (map fst (filter P xs))" "k \<in> set (map fst (filter Q xs))"
    by blast
  then obtain x y where x: "x \<in> set xs" "P x" "fst x = k" and y: "y \<in> set xs" "Q y" "fst y = k"
    by auto
  from assms(1) x(1,3) y(1,3) have "x = y"
    by (metis eq_key_imp_eq_value prod.collapse)
  with x y assms(2) show False by blast
qed

text \<open>
  C1. For a compose document whose services mapping has N entries (a mapping has distinct
  keys), the three lists of the Analysis are pairwise disjoint, together they hold exactly
  the declared service names, N names in all, and each list is in document order: it is
  a subsequence of the list of declared names, without repetition.
\<close>

theorem analyzeServices_partition:
  assumes "distinct (map fst services)"
  shows "set (databases (analyzeServices services)) \<inter> set (apps (analyzeServices services)) = {}
    \<and> set (databases (analyzeServices services)) \<inter>
        set (otherServices (analyzeServices services)) = {}
    \<and> set (apps (analyzeServices services)) \<inter>
        set (otherServices (analyzeServices services)) = {}
    \<and> set (databases (analyzeServices services)) \<union> set (apps (analyzeServices services))
        \<union> set (otherServices (analyzeServices services)) = set (map fst services)
    \<and> length (databases (analyzeServices services)) + length (apps (analyzeServices services))
        + length (otherServices (analyzeServices services)) = length services
    \<and> subseq (databases (analyzeServices services)) (map fst services)
    \<and> subseq (apps (analyzeServices services)) (map fst services)
    \<and> subseq (otherServices (analyzeServices services)) (map fst services)
    \<and> distinct (databases (analyzeServices services))
    \<and> distinct (apps (analyzeServices services))
    \<and> distinct (otherServices (analyzeServices services))"
proof -
  let ?D = "\<lambda>(n, s). isDb n s"
  let ?A = "\<lambda>(n, s). \<not> isDb n s \<and> (truthy_str (image_opt s) \<or> truthy_build (build_opt s))"
  let ?O = "\<lambda>(n, s). \<not> isDb n s \<and> \<not> (truthy_str (image_opt s) \<or> truthy_build (build_opt s))"
  have d: "databases (analyzeServices services) = map fst (filter ?D services)"
    by (rule databases_analyze)
  have a: "apps (analyzeServices services) = map fst (filter ?A services)"
    by (rule apps_analyze)
  have o: "otherServices (analyzeServices services) = map fst (filter ?O services)"
    by (rule others_analyze)
  have da: "set (map fst (filter ?D services)) \<inter> set (map fst (filter ?A services)) = {}"
    by (rule distinct_fst_filter_disjoint [OF assms]) auto
  have do: "set (map fst (filter ?D services)) \<inter> set (map fst (filter ?O services)) = {}"
    by (rule distinct_fst_filter_disjoint [OF assms]) auto
  have ao: "set (map fst (filter ?A services)) \<inter> set (map fst (filter ?O services)) = {}"
    by (rule distinct_fst_filter_disjoint [OF assms]) auto
  have un: "set (map fst (filter ?D services)) \<union> set (map fst (filter ?A services))
      \<union> set (map fst (filter ?O services)) = set (map fst services)"
    by auto
  have len: "length (filter ?D services) + length (filter ?A services)
      + length (filter ?O services) = length services"
    by (induction services) auto
  have dist: "\<And>P. distinct (map fst (filter P services))"
    using assms by (rule distinct_map_filter)
  show ?thesis
    unfolding d a o length_map
    by (intro conjI da do ao un len dist subseq_map_filter)
qed

theorem analyzeServices_partition_witness:
  "distinct (map fst three_services)
   \<and> databases (analyzeServices three_services) = [''db'']
   \<and> apps (analyzeServices three_services) = [''api'']
   \<and> otherServices (analyzeServices three_services) = [''ext'']
   \<and> set (databases (analyzeServices three_services)) \<union>
       set (apps (analyzeServices three_services)) \<union>
       set (otherServices (analyzeServices three_services)) = set (map fst three_services)"
proof -
  have h: "distinct (map fst three_services)"
    by (simp add: three_services_def)
  have e: "databases (analyzeServices three_services) = [''db'']"
    "apps (analyzeServices three_services) = [''api'']"
    "otherServices (analyzeServices three_services) = [''ext'']"
    by code_simp+
  from analyzeServices_partition [OF h] h e show ?thesis by simp
qed

lemma mem_fst_filter:
  assumes "distinct (map fst xs)" and "(k, v) \<in> set xs"
  shows "k \<in> set (map fst (filter P xs)) \<longleftrightarrow> P (k, v)"
proof
  assume "k \<in> set (map fst (filter P xs))"
  then obtain w where w: "(k, w) \<in> set xs" "P (k, w)" by auto
  from assms w(1) have "w = v" by (metis eq_key_imp_eq_value)
  with w(2) show "P (k, v)" by simp
next
  assume "P (k, v)"
  with assms(2) have "(k, v) \<in> set (filter P xs)" by simp
  then show "k \<in> set (map fst (filter P xs))" by force
qed

lemma toLowerCase_append: "toLowerCase (a @ b) = toLowerCase a @ toLowerCase b"
  by (simp add: toLowerCase_def)

lemma includes_str_append1: "includes_str a pat \<Longrightarrow> includes_str (a @ b) pat"
proof -
  assume "includes_str a pat"
  then obtain xs ys where "a = xs @ pat @ ys" by (auto simp: includes_iff)
  then have "a @ b = xs @ pat @ (ys @ b)" by simp
  then show ?thesis unfolding includes_iff by blast
qed

lemma includes_str_append2: "includes_str b pat \<Longrightarrow> includes_str (a @ b) pat"
proof -
  assume "includes_str b pat"
  then obtain xs ys where "b = xs @ pat @ ys" by (auto simp: includes_iff)
  then have "a @ b = (a @ xs) @ pat @ ys" by simp
  then show ?thesis unfolding includes_iff by blast
qed

lemma isDb_keyword:
  "isDb name service \<longleftrightarrow>
     (\<exists>db \<in> set dbImages.
        includes_str (toLowerCase (case image_opt service of None \<Rightarrow> [] | Some i \<Rightarrow> i)) db
        \<or> includes_str (toLowerCase name) db)"
  by (cases "image_opt service") (simp_all add: isDb_def list_ex_iff toLowerCase_def)

lemma isDb_spec_isDatabase: "isDb name service \<Longrightarrow> spec_isDatabase name service"
  unfolding isDb_keyword spec_isDatabase_def spec_haystack_def list_ex_iff toLowerCase_append
  using includes_str_append1 includes_str_append2 by blast

text \<open>
  C2, as the code has it. A declared service is a Database iff one of the six keywords
  occurs in its lowercase image reference or occurs in its lowercase name, each searched on
  its own; otherwise it is an Application iff its image is a non-empty string or its build
  reference is truthy, and an Other service otherwise. Every Database of the code is also
  a Database under the haystack of image followed by name.
\<close>

theorem analyzeServices_classes:
  assumes "distinct (map fst services)" and "(name, service) \<in> set services"
  shows "(name \<in> set (databases (analyzeServices services)) \<longleftrightarrow>
            (\<exists>db \<in> set dbImages.
               includes_str
                 (toLowerCase (case image_opt service of None \<Rightarrow> [] | Some i \<Rightarrow> i)) db
               \<or> includes_str (toLowerCase name) db))
    \<and> (name \<in> set (apps (analyzeServices services)) \<longleftrightarrow>
            \<not> isDb name service \<and>
            (truthy_str (image_opt service) \<or> truthy_build (build_opt service)))
    \<and> (name \<in> set (otherServices (analyzeServices services)) \<longleftrightarrow>
            \<not> isDb name service \<and>
            \<not> (truthy_str (image_opt service) \<or> truthy_build (build_opt service)))
    \<and> (name \<in> set (databases (analyzeServices services)) \<longrightarrow>
            spec_isDatabase name service)"
proof -
  have d: "name \<in> set (databases (analyzeServices services)) \<longleftrightarrow> isDb name service"
    unfolding databases_analyze using mem_fst_filter [OF assms] by simp
  have a: "name \<in> set (apps (analyzeServices services)) \<longleftrightarrow>
      \<not> isDb name service \<and> (truthy_str (image_opt service) \<or> truthy_build (build_opt service))"
    unfolding apps_analyze using mem_fst_filter [OF assms] by simp
  have o: "name \<in> set (otherServices (analyzeServices services)) \<longleftrightarrow>
      \<not> isDb name service \<and>
      \<not> (truthy_str (image_opt service) \<or> truthy_build (build_opt service))"
    unfolding others_analyze using mem_fst_filter [OF assms] by simp
  show ?thesis
    unfolding a o unfolding d using isDb_keyword isDb_spec_isDatabase by blast
qed

theorem analyzeServices_classes_witness:
  "distinct (map fst three_services)
   \<and> (''api'', with_image ''node:20'') \<in> set three_services
   \<and> ''api'' \<in> set (apps (analyzeServices three_services))
   \<and> \<not> isDb ''api'' (with_image ''node:20'')
   \<and> ''api'' \<notin> set (databases (analyzeServices three_services))"
proof -
  have h: "distinct (map fst three_services)"
    by (simp add: three_services_def)
  have m: "(''api'', with_image ''node:20'') \<in> set three_services"
    by (simp add: three_services_def)
  have n: "\<not> isDb ''api'' (with_image ''node:20'')"
    by code_simp
  have t: "truthy_str (image_opt (with_image ''node:20''))"
    by code_simp
  from analyzeServices_classes [OF h m] h m n t show ?thesis
    using isDb_keyword by blast
qed

text \<open>
  The haystack of the specification finds \<open>redis\<close> across the junction of the image
  \<open>tools/redi\<close> and the name \<open>s3\<close>; the code searches the two strings one by one and
  makes the service an Application.
\<close>

theorem analyzeServices_junction_counterexample:
  "spec_isDatabase ''s3'' junction_service
   \<and> databases (analyzeServices [(''s3'', junction_service)]) = []
   \<and> apps (analyzeServices [(''s3'', junction_service)]) = [''s3'']"
  by code_simp

subsection \<open>Splitting and joining\<close>

lemma split_on_no_sep: "d \<notin> set s \<Longrightarrow> split_on d s = [s]"
  by (induction s) auto

lemma split_on_parts_no_sep: "p \<in> set (split_on d s) \<Longrightarrow> d \<notin> set p"
proof (induction s arbitrary: p)
  case Nil
  then show ?case by simp
next
  case (Cons c cs)
  obtain q qs where q: "split_on d cs = q # qs"
    using split_on_not_Nil [of d cs] by (cases "split_on d cs") auto
  show ?case
  proof (cases "c = d")
    case True
    with Cons.prems have "p = [] \<or> p \<in> set (split_on d cs)" by simp
    with Cons.IH show ?thesis by auto
  next
    case False
    with Cons.prems q have "p = c # q \<or> p \<in> set qs" by simp
    moreover have "d \<notin> set q" using Cons.IH [of q] q by simp
    moreover have "p \<in> set qs \<Longrightarrow> d \<notin> set p" using Cons.IH [of p] q by simp
    ultimately show ?thesis using False by auto
  qed
qed

lemma split_on_append_sep: "d \<notin> set a \<Longrightarrow> split_on d (a @ d # b) = a # split_on d b"
  by (induction a) auto

lemma split_on_single_iff: "length (split_on d s) < 2 \<longleftrightarrow> d \<notin> set s"
proof (induction s)
  case Nil
  then show ?case by simp
next
  case (Cons c cs)
  obtain q qs where q: "split_on d cs = q # qs"
    using split_on_not_Nil [of d cs] by (cases "split_on d cs") auto
  with Cons show ?case by auto
qed

lemma join_split_on: "join_with d (split_on d s) = s"
proof (induction s)
  case Nil
  then show ?case by simp
next
  case (Cons c cs)
  obtain q qs where q: "split_on d cs = q # qs"
    using split_on_not_Nil [of d cs] by (cases "split_on d cs") auto
  show ?case
  proof (cases "c = d")
    case True
    with Cons q show ?thesis by simp
  next
    case False
    with Cons q show ?thesis by (cases qs) auto
  qed
qed

lemma split_on_two_parts:
  assumes "d \<notin> set a" and "d \<notin> set b"
  shows "split_on d (join_with d [a, b]) = [a, b]"
  using assms by (simp add: split_on_append_sep split_on_no_sep)

subsection \<open>Volume specifiers\<close>

lemma parseVolume_two_or_more:
  assumes "split_on CHR '':'' volume = source # target # others"
  shows "parseVolume volume =
     (if startsWith source ''/'' \<or> startsWith source ''./''
      then \<lparr>vtype = Bind, vname = source, containerPath = target, hostPath = Some source\<rparr>
      else \<lparr>vtype = Volume, vname = source, containerPath = target, hostPath = None\<rparr>)"
  using assms by (simp add: parseVolume_def Let_def)

lemma parseVolume_bind_iff:
  assumes "length (split_on CHR '':'' volume) \<ge> 2"
  shows "(vtype (parseVolume volume) = Bind \<longleftrightarrow>
            startsWith (split_on CHR '':'' volume ! 0) ''/'' \<or>
            startsWith (split_on CHR '':'' volume ! 0) ''./'')
    \<and> vname (parseVolume volume) = split_on CHR '':'' volume ! 0
    \<and> containerPath (parseVolume volume) = split_on CHR '':'' volume ! 1"
proof -
  from assms obtain source target others
    where p: "split_on CHR '':'' volume = source # target # others"
    by (cases "split_on CHR '':'' volume" rule: list.exhaust;
        cases "tl (split_on CHR '':'' volume)") auto
  show ?thesis
    unfolding parseVolume_two_or_more [OF p] p by simp
qed

lemma parseVolume_parent_relative_source:
  assumes "CHR '':'' \<notin> set p"
  shows "vtype (parseVolume (''../'' @ p @ '':'' @ target)) = Volume
    \<and> vname (parseVolume (''../'' @ p @ '':'' @ target)) = ''../'' @ p"
proof -
  obtain q qs where q: "split_on CHR '':'' target = q # qs"
    using split_on_not_Nil [of "CHR '':''" target] by (cases "split_on CHR '':'' target") auto
  have "CHR '':'' \<notin> set (''../'' @ p)"
    using assms by simp
  then have "split_on CHR '':'' ((''../'' @ p) @ CHR '':'' # target) = (''../'' @ p) # q # qs"
    unfolding q [symmetric] by (rule split_on_append_sep)
  then have s: "split_on CHR '':'' (''../'' @ p @ '':'' @ target) = (''../'' @ p) # q # qs"
    by simp
  show ?thesis
    unfolding parseVolume_two_or_more [OF s] by (simp add: startsWith_def)
qed

text \<open>
  C6. The token \<open>../data:/var/data\<close> has two colon-separated parts and its source
  begins with the relative-path marker \<open>../\<close>, a path on the host. \<open>parseVolume\<close>
  tests the prefixes \<open>/\<close> and \<open>./\<close> only: the token comes back as a named volume
  whose name is the path \<open>../data\<close>, and the emitter writes a volume entry of that name.
  The sibling token \<open>./data:/var/data\<close> is a bind mount, written as the line that
  leaves it to a manual step.
\<close>

theorem parseVolume_parent_relative:
  \<open>split_on CHR '':'' ''../data:/var/data'' = [''../data'', ''/var/data'']
   \<and> startsWith ''../data'' ''../''
   \<and> parseVolume ''../data:/var/data'' =
       \<lparr>vtype = Volume, vname = ''../data'', containerPath = ''/var/data'', hostPath = None\<rparr>
   \<and> mount_entry ''../data:/var/data'' =
       ''        {\<newline>'' @
       ''          type: "volume",\<newline>'' @
       ''          name: "../data",\<newline>'' @
       ''          mountPath: "/var/data",\<newline>'' @
       ''        },\<newline>''
   \<and> parseVolume ''./data:/var/data'' =
       \<lparr>vtype = Bind, vname = ''./data'', containerPath = ''/var/data'',
        hostPath = Some ''./data''\<rparr>
   \<and> mount_entry ''./data:/var/data'' =
       ''        // TODO: Handle bind mount: ./data:/var/data\<newline>''\<close>
  by code_simp

text \<open>
  C10. A volume token with three or more colon-separated parts is parsed from its first
  two parts alone: the name is the first part, the container path is exactly the second,
  and the result is the one of the token cut after its second part. \<open>parseVolume\<close> has
  no failing branch: it is a total function.
\<close>

theorem parseVolume_extra_segments:
  assumes "length (split_on CHR '':'' volume) \<ge> 3"
  shows "vname (parseVolume volume) = split_on CHR '':'' volume ! 0
    \<and> containerPath (parseVolume volume) = split_on CHR '':'' volume ! 1
    \<and> parseVolume volume =
        parseVolume (join_with CHR '':'' (take 2 (split_on CHR '':'' volume)))"
proof -
  from assms obtain source target others
    where p: "split_on CHR '':'' volume = source # target # others"
    by (cases "split_on CHR '':'' volume" rule: list.exhaust;
        cases "tl (split_on CHR '':'' volume)") auto
  have "source \<in> set (split_on CHR '':'' volume)" "target \<in> set (split_on CHR '':'' volume)"
    using p by simp_all
  then have n: "CHR '':'' \<notin> set source" "CHR '':'' \<notin> set target"
    using split_on_parts_no_sep by blast+
  have cut: "split_on CHR '':'' (join_with CHR '':'' [source, target]) = [source, target]"
    by (rule split_on_two_parts [OF n])
  have "parseVolume (join_with CHR '':'' [source, target]) = parseVolume volume"
    unfolding parseVolume_two_or_more [OF p] parseVolume_two_or_more [OF cut] ..
  then show ?thesis
    unfolding p by (simp add: parseVolume_two_or_more [OF p])
qed

theorem parseVolume_extra_segments_witness:
  "length (split_on CHR '':'' ''data:/path:ro'') \<ge> 3
   \<and> vname (parseVolume ''data:/path:ro'') = ''data''
   \<and> containerPath (parseVolume ''data:/path:ro'') = ''/path''
   \<and> parseVolume ''data:/path:ro'' = parseVolume ''data:/path''"
proof -
  have s: "split_on CHR '':'' ''data:/path:ro'' = [''data'', ''/path'', ''ro'']"
    by code_simp
  have h: "length (split_on CHR '':'' ''data:/path:ro'') \<ge> 3"
    unfolding s by simp
  have j: "join_with CHR '':'' (take 2 (split_on CHR '':'' ''data:/path:ro'')) = ''data:/path''"
    unfolding s by simp
  note t = parseVolume_extra_segments [OF h, unfolded j]
  have a: "vname (parseVolume ''data:/path:ro'') = ''data''"
    using t [THEN conjunct1] unfolding s by simp
  have b: "containerPath (parseVolume ''data:/path:ro'') = ''/path''"
    using t [THEN conjunct2, THEN conjunct1] unfolding s by simp
  have c: "parseVolume ''data:/path:ro'' = parseVolume ''data:/path''"
    using t [THEN conjunct2, THEN conjunct2] .
  from h a b c show ?thesis by blast
qed

subsection \<open>Port specifiers\<close>

lemma is_digit_not_space: "is_digit c \<Longrightarrow> \<not> is_space c"
  by (auto simp: is_digit_def is_space_def)

lemma is_digit_not_sign: "is_digit c \<Longrightarrow> c \<noteq> CHR ''-'' \<and> c \<noteq> CHR ''+'' \<and> c \<noteq> CHR '':''"
  by (auto simp: is_digit_def)

lemma parseInt_digits:
  assumes "ds \<noteq> []" and "list_all is_digit ds"
  shows "parseInt ds = (if digits_value ds > max_exact then Beyond else Num (digits_value ds))"
proof -
  from assms have c: "is_digit (hd ds)" by (cases ds) auto
  have t: "dropWhile is_space ds = ds"
    using assms(1) c is_digit_not_space by (cases ds) auto
  have u: "takeWhile is_digit ds = ds"
    using assms(2) by (simp add: takeWhile_eq_all_conv list_all_iff)
  have g: "hd ds \<noteq> CHR ''-''" "hd ds \<noteq> CHR ''+''"
    using is_digit_not_sign [OF c] by simp_all
  show ?thesis
    using g assms(1) by (simp add: parseInt_def Let_def t u)
qed

lemma digits_no_colon: "list_all is_digit ds \<Longrightarrow> CHR '':'' \<notin> set ds"
  using is_digit_not_sign by (auto simp: list_all_iff)

text \<open>
  C8, as the code has it. The number of colon-separated parts alone decides the shape:
  two parts give a binding of \<open>parseInt\<close> of each part, one part gives a binding with
  \<open>parseInt\<close> of the token on both sides, three or more parts give no binding. A bare
  decimal integer of at most \<open>2 ^ 53\<close> gives that integer on both sides; a greater one
  gives a number of the language that is beyond the integers of the model. \<open>parseInt\<close>
  is not checked for \<open>NaN\<close>.
\<close>

theorem parsePort_shapes:
  "(length (split_on CHR '':'' port) = 2 \<longrightarrow>
      parsePort port = Some \<lparr>hostPort = parseInt (split_on CHR '':'' port ! 0),
                            containerPort = parseInt (split_on CHR '':'' port ! 1)\<rparr>)
   \<and> (length (split_on CHR '':'' port) = 1 \<longrightarrow>
      parsePort port = Some \<lparr>hostPort = parseInt port, containerPort = parseInt port\<rparr>)
   \<and> (length (split_on CHR '':'' port) \<ge> 3 \<longrightarrow> parsePort port = None)
   \<and> (port \<noteq> [] \<and> list_all is_digit port \<and> digits_value port \<le> 2 ^ 53 \<longrightarrow>
      parsePort port = Some \<lparr>hostPort = Num (digits_value port),
                            containerPort = Num (digits_value port)\<rparr>)
   \<and> (port \<noteq> [] \<and> list_all is_digit port \<and> digits_value port > 2 ^ 53 \<longrightarrow>
      parsePort port = Some \<lparr>hostPort = Beyond, containerPort = Beyond\<rparr>)"
proof (intro conjI impI)
  assume "length (split_on CHR '':'' port) = 2"
  then show "parsePort port = Some \<lparr>hostPort = parseInt (split_on CHR '':'' port ! 0),
      containerPort = parseInt (split_on CHR '':'' port ! 1)\<rparr>"
    by (simp add: parsePort_def Let_def)
next
  assume l: "length (split_on CHR '':'' port) = 1"
  then have "CHR '':'' \<notin> set port"
    using split_on_single_iff [of "CHR '':''" port] by simp
  then have "split_on CHR '':'' port = [port]" by (rule split_on_no_sep)
  then show "parsePort port = Some \<lparr>hostPort = parseInt port, containerPort = parseInt port\<rparr>"
    by (simp add: parsePort_def Let_def)
next
  assume "length (split_on CHR '':'' port) \<ge> 3"
  then show "parsePort port = None"
    by (simp add: parsePort_def)
next
  assume d: "port \<noteq> [] \<and> list_all is_digit port \<and> digits_value port \<le> 2 ^ 53"
  then have "split_on CHR '':'' port = [port]"
    using digits_no_colon split_on_no_sep by blast
  then show "parsePort port = Some \<lparr>hostPort = Num (digits_value port),
      containerPort = Num (digits_value port)\<rparr>"
    using d by (simp add: parsePort_def Let_def parseInt_digits max_exact_def)
next
  assume d: "port \<noteq> [] \<and> list_all is_digit port \<and> digits_value port > 2 ^ 53"
  then have "split_on CHR '':'' port = [port]"
    using digits_no_colon split_on_no_sep by blast
  then show "parsePort port = Some \<lparr>hostPort = Beyond, containerPort = Beyond\<rparr>"
    using d by (simp add: parsePort_def Let_def parseInt_digits max_exact_def)
qed

theorem parsePort_shapes_witness:
  "length (split_on CHR '':'' ''8080:80'') = 2
   \<and> parsePort ''8080:80'' = Some \<lparr>hostPort = Num 8080, containerPort = Num 80\<rparr>
   \<and> length (split_on CHR '':'' ''3000'') = 1 \<and> list_all is_digit ''3000''
   \<and> digits_value ''3000'' \<le> 2 ^ 53
   \<and> parsePort ''3000'' = Some \<lparr>hostPort = Num 3000, containerPort = Num 3000\<rparr>
   \<and> length (split_on CHR '':'' ''127.0.0.1:8080:80'') \<ge> 3
   \<and> parsePort ''127.0.0.1:8080:80'' = None
   \<and> list_all is_digit ''9007199254740993'' \<and> digits_value ''9007199254740993'' > 2 ^ 53
   \<and> parsePort ''9007199254740993'' = Some \<lparr>hostPort = Beyond, containerPort = Beyond\<rparr>"
proof -
  have s: "split_on CHR '':'' ''8080:80'' = [''8080'', ''80'']"
    "split_on CHR '':'' ''3000'' = [''3000'']"
    "split_on CHR '':'' ''127.0.0.1:8080:80'' = [''127.0.0.1'', ''8080'', ''80'']"
    by code_simp+
  have v: "parseInt ''8080'' = Num 8080" "parseInt ''80'' = Num 80"
    "digits_value ''3000'' = 3000" "digits_value ''9007199254740993'' = 9007199254740993"
    by code_simp+
  have d: "list_all is_digit ''3000''" "list_all is_digit ''9007199254740993''"
    by code_simp+
  have a: "parsePort ''8080:80'' = Some \<lparr>hostPort = Num 8080, containerPort = Num 80\<rparr>"
    using parsePort_shapes [of "''8080:80''", THEN conjunct1] unfolding s by (simp add: v)
  have b: "parsePort ''3000'' = Some \<lparr>hostPort = Num 3000, containerPort = Num 3000\<rparr>"
    using parsePort_shapes [of "''3000''", THEN conjunct2, THEN conjunct2, THEN conjunct2,
      THEN conjunct1] d(1)
    by (simp add: v)
  have c: "parsePort ''127.0.0.1:8080:80'' = None"
    using parsePort_shapes [of "''127.0.0.1:8080:80''", THEN conjunct2, THEN conjunct2,
      THEN conjunct1] unfolding s by simp
  have e: "parsePort ''9007199254740993'' = Some \<lparr>hostPort = Beyond, containerPort = Beyond\<rparr>"
    using parsePort_shapes [of "''9007199254740993''", THEN conjunct2, THEN conjunct2,
      THEN conjunct2, THEN conjunct2] d(2)
    by (simp add: v)
  from a b c d e show ?thesis unfolding s by (simp add: v)
qed

text \<open>
  The single token \<open>web\<close> is not an integer, and yet a binding comes back; its
  \<open>containerPort\<close> is \<open>NaN\<close>.
\<close>

theorem parsePort_not_a_number_counterexample:
  "length (split_on CHR '':'' ''web'') = 1
   \<and> parsePort ''web'' = Some \<lparr>hostPort = NaN, containerPort = NaN\<rparr>"
  by code_simp

subsection \<open>Objects\<close>

lemma insert_index_last:
  assumes "\<forall>p \<in> set obj. is_array_index (fst p) \<and> digits_value (fst p) < digits_value k"
  shows "insert_index k v obj = obj @ [(k, v)]"
  using assms by (induction obj) auto

lemma js_record_butlast: "js_record (obj @ [p]) \<Longrightarrow> js_record obj"
  by (simp add: js_record_def sorted_wrt_append)

lemma js_set_last:
  assumes "js_record (obj @ [(k, v)])" and "k \<noteq> ''__proto__''"
  shows "js_set k v obj = obj @ [(k, v)]"
proof -
  from assms(1) have new: "k \<notin> set (map fst obj)"
    by (simp add: js_record_def)
  from assms(1) have before: "\<forall>p \<in> set obj. key_before (fst p) k"
    by (auto simp: js_record_def sorted_wrt_append)
  show ?thesis
  proof (cases "is_array_index k")
    case True
    with before have "\<forall>p \<in> set obj. is_array_index (fst p) \<and> digits_value (fst p) < digits_value k"
      by (auto simp: key_before_def split: if_splits)
    then have "insert_index k v obj = obj @ [(k, v)]" by (rule insert_index_last)
    with new assms(2) True show ?thesis by (simp add: js_set_def)
  next
    case False
    with new assms(2) show ?thesis by (simp add: js_set_def)
  qed
qed

subsection \<open>Environments\<close>

lemma env_entry_pair: "CHR ''='' \<notin> set k \<Longrightarrow> env_entry (k @ ''='' @ v) = (k, v)"
  by (simp add: env_entry_def split_on_append_sep join_split_on)

lemma env_entry_bare: "CHR ''='' \<notin> set k \<Longrightarrow> env_entry k = (k, [])"
  by (simp add: env_entry_def split_on_no_sep)

lemma parseEnvironment_snoc:
  "parseEnvironment (EnvArray (items @ [item])) =
     js_set (fst (env_entry item)) (EnvStr (snd (env_entry item)))
       (parseEnvironment (EnvArray items))"
  by (simp add: parseEnvironment_def split: prod.splits)

lemma is_string_EnvStr: "is_string v \<Longrightarrow> EnvStr (js_string v) = v"
  by (cases v) (simp_all add: is_string_def js_string_def)

lemma parseEnvironment_tokens:
  assumes "js_record r"
    and "\<forall>k \<in> set (map fst r). CHR ''='' \<notin> set k \<and> k \<noteq> ''__proto__''"
    and "list_all (\<lambda>p. is_string (snd p)) r"
  shows "parseEnvironment (EnvArray (env_tokens r)) = r"
  using assms
proof (induction r rule: rev_induct)
  case Nil
  then show ?case by (simp add: parseEnvironment_def env_tokens_def)
next
  case (snoc p r)
  obtain k v where p: "p = (k, v)" by (cases p)
  from snoc.prems have k: "CHR ''='' \<notin> set k" "k \<noteq> ''__proto__''" and v: "is_string v"
    by (simp_all add: p)
  have r: "js_record r" using snoc.prems(1) by (rule js_record_butlast)
  have ih: "parseEnvironment (EnvArray (env_tokens r)) = r"
    using snoc.IH [OF r] snoc.prems(2,3) by simp
  have "parseEnvironment (EnvArray (env_tokens (r @ [p]))) =
      parseEnvironment (EnvArray (env_tokens r @ [k @ ''='' @ js_string v]))"
    by (simp add: env_tokens_def p)
  also have "\<dots> = js_set k v r"
    unfolding parseEnvironment_snoc ih env_entry_pair [OF k(1)]
    by (simp add: is_string_EnvStr [OF v])
  also have "\<dots> = r @ [(k, v)]"
    using snoc.prems(1) k(2) unfolding p by (rule js_set_last)
  finally show ?case by (simp add: p)
qed

lemma is_string_text: "is_string (EnvStr v)"
  by (simp add: is_string_def)

lemma replace_value_strings:
  "list_all (\<lambda>p. is_string (snd p)) obj \<Longrightarrow>
     list_all (\<lambda>p. is_string (snd p)) (replace_value k (EnvStr v) obj)"
  by (induction obj) (auto simp: is_string_text)

lemma insert_index_strings:
  "list_all (\<lambda>p. is_string (snd p)) obj \<Longrightarrow>
     list_all (\<lambda>p. is_string (snd p)) (insert_index k (EnvStr v) obj)"
  by (induction obj) (auto simp: is_string_text)

lemma js_set_strings:
  "list_all (\<lambda>p. is_string (snd p)) obj \<Longrightarrow>
     list_all (\<lambda>p. is_string (snd p)) (js_set k (EnvStr v) obj)"
  by (simp add: js_set_def replace_value_strings insert_index_strings is_string_text)

lemma parseEnvironment_array_strings:
  "list_all (\<lambda>p. is_string (snd p)) (parseEnvironment (EnvArray items))"
proof (induction items rule: rev_induct)
  case Nil
  then show ?case by (simp add: parseEnvironment_def)
next
  case (snoc item items)
  then show ?case
    unfolding parseEnvironment_snoc by (rule js_set_strings)
qed

text \<open>
  C9, as the code has it. For an environment whose values are strings and whose variable
  names hold no \<open>=\<close> and are not \<open>__proto__\<close>, the mapping form and its sequence of
  \<open>KEY=VALUE\<close> tokens normalize to the same ordered mapping, the mapping itself. A token
  is split at its first \<open>=\<close> only, and a token without \<open>=\<close> gets the empty value. A
  mapping is returned as it is, whatever its values are, and the values that the sequence
  form yields are all strings.
\<close>

theorem parseEnvironment_formats:
  assumes "js_record r"
    and "\<forall>k \<in> set (map fst r). CHR ''='' \<notin> set k \<and> k \<noteq> ''__proto__''"
    and "list_all (\<lambda>p. is_string (snd p)) r"
  shows "parseEnvironment (EnvArray (env_tokens r)) = parseEnvironment (EnvRecord r)
    \<and> (\<forall>m. parseEnvironment (EnvRecord m) = m)
    \<and> (\<forall>items. list_all (\<lambda>p. is_string (snd p)) (parseEnvironment (EnvArray items)))
    \<and> (\<forall>k v. CHR ''='' \<notin> set k \<and> k \<noteq> ''__proto__'' \<longrightarrow>
          parseEnvironment (EnvArray [k @ ''='' @ v]) = [(k, EnvStr v)]
          \<and> parseEnvironment (EnvArray [k]) = [(k, EnvStr [])])"
proof (intro conjI allI impI)
  show "parseEnvironment (EnvArray (env_tokens r)) = parseEnvironment (EnvRecord r)"
    using parseEnvironment_tokens [OF assms] by (simp add: parseEnvironment_def)
  show "parseEnvironment (EnvRecord m) = m" for m
    by (simp add: parseEnvironment_def)
  show "list_all (\<lambda>p. is_string (snd p)) (parseEnvironment (EnvArray items))" for items
    by (rule parseEnvironment_array_strings)
next
  fix k v :: string
  assume k: "CHR ''='' \<notin> set k \<and> k \<noteq> ''__proto__''"
  then show "parseEnvironment (EnvArray [k @ ''='' @ v]) = [(k, EnvStr v)]"
    using env_entry_pair [of k v] by (simp add: parseEnvironment_def js_set_def)
  from k show "parseEnvironment (EnvArray [k]) = [(k, EnvStr [])]"
    using env_entry_bare [of k] by (simp add: parseEnvironment_def js_set_def)
qed

theorem parseEnvironment_formats_witness:
  "js_record sample_env
   \<and> map fst sample_env = [''JAVA_OPTS'', ''DEBUG'']
   \<and> CHR ''='' \<notin> set ''JAVA_OPTS'' \<and> ''JAVA_OPTS'' \<noteq> ''__proto__''
   \<and> CHR ''='' \<notin> set ''DEBUG'' \<and> ''DEBUG'' \<noteq> ''__proto__''
   \<and> map snd sample_env = [EnvStr ''-Dmode=prod'', EnvStr []]
   \<and> parseEnvironment (EnvArray [''JAVA_OPTS=-Dmode=prod'', ''DEBUG='']) = sample_env
   \<and> parseEnvironment (EnvRecord sample_env) = sample_env
   \<and> parseEnvironment (EnvArray [''DEBUG'']) = [(''DEBUG'', EnvStr [])]"
proof -
  have h1: "js_record sample_env"
    by code_simp
  have h2: "\<forall>k \<in> set (map fst sample_env). CHR ''='' \<notin> set k \<and> k \<noteq> ''__proto__''"
    by (simp add: sample_env_def)
  have h3: "list_all (\<lambda>p. is_string (snd p)) sample_env"
    by (simp add: sample_env_def is_string_def)
  have t: "env_tokens sample_env = [''JAVA_OPTS=-Dmode=prod'', ''DEBUG='']"
    by (simp add: env_tokens_def sample_env_def js_string_def)
  note f = parseEnvironment_formats [OF h1 h2 h3, unfolded t]
  have m: "parseEnvironment (EnvRecord sample_env) = sample_env"
    using f [THEN conjunct2, THEN conjunct1] by blast
  have a: "parseEnvironment (EnvArray [''JAVA_OPTS=-Dmode=prod'', ''DEBUG='']) = sample_env"
    using f [THEN conjunct1] m by simp
  have "CHR ''='' \<notin> set ''DEBUG'' \<and> ''DEBUG'' \<noteq> ''__proto__''"
    by simp
  with f [THEN conjunct2, THEN conjunct2, THEN conjunct2]
  have b: "parseEnvironment (EnvArray [''DEBUG'']) = [(''DEBUG'', EnvStr [])]"
    by blast
  have k: "map fst sample_env = [''JAVA_OPTS'', ''DEBUG'']"
    "map snd sample_env = [EnvStr ''-Dmode=prod'', EnvStr []]"
    by (simp_all add: sample_env_def)
  from h1 k a m b show ?thesis by simp
qed

text \<open>
  An environment with a number, a boolean and an empty value: the mapping form comes
  back with these values as they are, the sequence forms yield strings.
\<close>

theorem parseEnvironment_scalar_counterexample:
  "parseEnvironment (EnvRecord scalar_env) =
     [(''PORT'', EnvNum ''3000''), (''DEBUG'', EnvBool True), (''TZ'', EnvNull)]
   \<and> parseEnvironment (EnvArray [''PORT=3000'', ''DEBUG=true'', ''TZ='']) =
     [(''PORT'', EnvStr ''3000''), (''DEBUG'', EnvStr ''true''), (''TZ'', EnvStr [])]
   \<and> parseEnvironment (EnvArray [''PORT=3000'', ''DEBUG=true'', ''TZ'']) =
     [(''PORT'', EnvStr ''3000''), (''DEBUG'', EnvStr ''true''), (''TZ'', EnvStr [])]
   \<and> parseEnvironment (EnvArray (env_tokens scalar_env)) =
     [(''PORT'', EnvStr ''3000''), (''DEBUG'', EnvStr ''true''), (''TZ'', EnvStr ''null'')]"
  by code_simp

text \<open>
  The token of a variable \<open>__proto__\<close>: the assignment \<open>result['__proto__'] = 'x'\<close>
  reaches the setter of the prototype and creates no property.
\<close>

lemma parseEnvironment_proto_token: "parseEnvironment (EnvArray [''__proto__=x'']) = []"
  by code_simp

subsection \<open>Assignments to an object\<close>

lemma map_of_replace_value_other:
  "k' \<noteq> k \<Longrightarrow> map_of (replace_value k v obj) k' = map_of obj k'"
  by (induction obj) auto

lemma map_of_replace_value_same:
  "k \<in> set (map fst obj) \<Longrightarrow> map_of (replace_value k v obj) k = Some v"
  by (induction obj) auto

lemma replace_value_absent: "k \<notin> set (map fst obj) \<Longrightarrow> replace_value k v obj = obj"
  by (induction obj) auto

lemma map_of_replace_value:
  "map_of (replace_value k v obj) k' =
     (if k' = k \<and> k \<in> set (map fst obj) then Some v else map_of obj k')"
  using map_of_replace_value_other [of k' k v obj] map_of_replace_value_same [of k obj v]
    replace_value_absent [of k obj v]
  by (cases "k' = k"; cases "k \<in> set (map fst obj)") simp_all

lemma map_of_insert_index:
  "k \<notin> set (map fst obj) \<Longrightarrow>
     map_of (insert_index k v obj) k' = (if k' = k then Some v else map_of obj k')"
  by (induction obj) auto

lemma map_of_js_set:
  "map_of (js_set k v obj) k' =
     (if k' = k \<and> (k \<in> set (map fst obj) \<or> k \<noteq> ''__proto__'') then Some v
      else map_of obj k')"
proof (cases "k \<in> set (map fst obj)")
  case True
  then show ?thesis by (simp add: js_set_def map_of_replace_value)
next
  case False
  then have "map_of obj k = None" by (simp add: map_of_eq_None_iff)
  with False show ?thesis
    by (auto simp: js_set_def map_of_insert_index map_add_def split: option.splits)
qed

lemma keys_replace_value: "map fst (replace_value k v obj) = map fst obj"
  by (induction obj) auto

lemma keys_insert_index: "set (map fst (insert_index k v obj)) = insert k (set (map fst obj))"
  by (induction obj) auto

lemma distinct_insert_index:
  "k \<notin> set (map fst obj) \<Longrightarrow> distinct (map fst obj) \<Longrightarrow>
     distinct (map fst (insert_index k v obj))"
proof (induction obj)
  case Nil
  then show ?case by simp
next
  case (Cons p ps)
  have "fst p \<notin> set (map fst (insert_index k v ps))"
    unfolding keys_insert_index using Cons.prems by auto
  with Cons show ?case by auto
qed

lemma distinct_js_set:
  "distinct (map fst obj) \<Longrightarrow> distinct (map fst (js_set k v obj))"
  by (simp add: js_set_def keys_replace_value distinct_insert_index)

lemma apply_writes_Cons:
  "apply_writes obj (w # ws) = apply_writes (js_set (fst w) (snd w) obj) ws"
  by (simp add: apply_writes_def)

lemma apply_writes_append:
  "apply_writes obj (ws @ ws') = apply_writes (apply_writes obj ws) ws'"
  by (simp add: apply_writes_def)

lemma distinct_apply_writes:
  "distinct (map fst obj) \<Longrightarrow> distinct (map fst (apply_writes obj ws))"
proof (induction ws arbitrary: obj)
  case Nil
  then show ?case by (simp add: apply_writes_def)
next
  case (Cons w ws)
  then show ?case
    unfolding apply_writes_Cons by (simp add: distinct_js_set)
qed

lemma map_of_apply_writes_last:
  assumes "k \<noteq> ''__proto__''" and "k \<notin> fst ` set after"
  shows "map_of (apply_writes obj (before @ [(k, p)] @ after)) k = Some p"
proof -
  have keep: "map_of (apply_writes obj' after) k = map_of obj' k" for obj'
    using assms(2)
  proof (induction after arbitrary: obj')
    case Nil
    then show ?case by (simp add: apply_writes_def)
  next
    case (Cons w ws)
    then have "fst w \<noteq> k" "k \<notin> fst ` set ws" by auto
    with Cons.IH [of "js_set (fst w) (snd w) obj'"] show ?case
      unfolding apply_writes_Cons by (simp add: map_of_js_set)
  qed
  have "map_of (apply_writes (apply_writes obj before) [(k, p)]) k = Some p"
    using assms(1) by (simp add: apply_writes_def map_of_js_set)
  then show ?thesis
    unfolding apply_writes_append keep .
qed

subsection \<open>Schema synthesis\<close>

lemma properties_add_env_fields:
  "properties (foldl (add_env_field n) schema entries) =
     apply_writes (properties schema)
       (map (\<lambda>(key, v). (n @ ''_'' @ key,
          \<lparr>ptype = ''string'', title = n @ '': '' @ key,
           default_value = Some (js_string v)\<rparr>)) entries)"
proof (induction entries arbitrary: schema)
  case Nil
  then show ?case by (simp add: apply_writes_def)
next
  case (Cons e es)
  obtain key v where e: "e = (key, v)" by (cases e)
  show ?case
    unfolding foldl_Cons Cons.IH list.map apply_writes_Cons
    by (simp add: e add_env_field_def)
qed

lemma properties_add_service_fields:
  "properties (add_service_fields n service schema) =
     apply_writes (properties schema) (service_writes n service)"
  by (cases "image_opt service"; cases "environment_opt service")
    (simp_all add: add_service_fields_def service_writes_def Let_def
      properties_add_env_fields apply_writes_Cons apply_writes_def)

lemma schema_loop_properties:
  "schema_loop services names schema = Inr result \<Longrightarrow>
     properties result =
       apply_writes (properties schema)
         (concat (map (\<lambda>n. case map_of services n of None \<Rightarrow> [] | Some s \<Rightarrow> service_writes n s)
            names))"
proof (induction names arbitrary: schema)
  case Nil
  then show ?case by (simp add: apply_writes_def)
next
  case (Cons n ns)
  from Cons.prems obtain s where s: "map_of services n = Some s"
    by (cases "map_of services n") auto
  with Cons.prems have "schema_loop services ns (add_service_fields n s schema) = Inr result"
    by simp
  from Cons.IH [OF this] show ?case
    by (simp add: s apply_writes_append properties_add_service_fields)
qed

lemma schema_loop_total:
  "set names \<subseteq> fst ` set services \<Longrightarrow> \<exists>result. schema_loop services names schema = Inr result"
proof (induction names arbitrary: schema)
  case Nil
  then show ?case by simp
next
  case (Cons n ns)
  then have "n \<in> fst ` set services" by simp
  then obtain s where s: "map_of services n = Some s"
    by (cases "map_of services n") (auto simp: map_of_eq_None_iff)
  from Cons have "\<exists>result. schema_loop services ns (add_service_fields n s schema) = Inr result"
    by simp
  with s show ?case by simp
qed

lemma analysis_names_declared:
  "set (databases (analyzeServices services) @ apps (analyzeServices services)
      @ otherServices (analyzeServices services)) \<subseteq> fst ` set services"
  unfolding databases_analyze apps_analyze others_analyze by auto

text \<open>
  C3, as the code has it. Schema synthesis over the Analysis of a document returns a
  schema whose property keys are unique, and the last writer wins: of the assignments to
  \<open>schema.properties\<close>, the last one with a given key decides the property recorded under
  that key, its title and its default. (The key \<open>__proto__\<close> is left aside.)
\<close>

theorem generateMetaYaml_last_writer:
  "\<exists>schema. generateMetaYaml_schema services (analyzeServices services) = Inr schema
     \<and> distinct (map fst (properties schema))
     \<and> (\<forall>k p before after.
          schema_writes services (analyzeServices services) = before @ [(k, p)] @ after
          \<and> k \<notin> fst ` set after \<and> k \<noteq> ''__proto__''
          \<longrightarrow> map_of (properties schema) k = Some p)"
proof -
  let ?a = "analyzeServices services"
  obtain schema where r: "generateMetaYaml_schema services ?a = Inr schema"
    unfolding generateMetaYaml_schema_def
    using schema_loop_total [OF analysis_names_declared] by blast
  have p: "properties schema = apply_writes (properties initial_schema) (schema_writes services ?a)"
    using r unfolding generateMetaYaml_schema_def schema_writes_def
    by (rule schema_loop_properties)
  have "distinct (map fst (properties initial_schema))"
    by (simp add: initial_schema_def)
  then have d: "distinct (map fst (properties schema))"
    unfolding p by (rule distinct_apply_writes)
  have "map_of (properties schema) k = Some q"
    if "schema_writes services ?a = before @ [(k, q)] @ after"
      and "k \<notin> fst ` set after" and "k \<noteq> ''__proto__''" for k q before after
    unfolding p that(1) using that(3) that(2) by (rule map_of_apply_writes_last)
  with r d show ?thesis by blast
qed

theorem generateMetaYaml_last_writer_witness:
  "schema_writes collide_services (analyzeServices collide_services) ! 2 =
     (''a_b_c'', \<lparr>ptype = ''string'', title = ''a: b_c'', default_value = Some ''first''\<rparr>)
   \<and> schema_writes collide_services (analyzeServices collide_services) =
     take 5 (schema_writes collide_services (analyzeServices collide_services))
       @ [(''a_b_c'', \<lparr>ptype = ''string'', title = ''a_b: c'', default_value = Some ''second''\<rparr>)]
       @ []
   \<and> ''a_b_c'' \<notin> fst ` set ([] :: (string \<times> Property) list)
   \<and> ''a_b_c'' \<noteq> ''__proto__''
   \<and> (\<exists>schema.
        generateMetaYaml_schema collide_services (analyzeServices collide_services) = Inr schema
        \<and> distinct (map fst (properties schema))
        \<and> map_of (properties schema) ''a_b_c'' =
          Some \<lparr>ptype = ''string'', title = ''a_b: c'', default_value = Some ''second''\<rparr>)"
proof -
  let ?p = "\<lparr>ptype = ''string'', title = ''a_b: c'', default_value = Some ''second''\<rparr>"
  let ?before = "take 5 (schema_writes collide_services (analyzeServices collide_services))"
  have w: "schema_writes collide_services (analyzeServices collide_services) =
      ?before @ [(''a_b_c'', ?p)] @ []"
    by code_simp
  have i: "schema_writes collide_services (analyzeServices collide_services) ! 2 =
      (''a_b_c'', \<lparr>ptype = ''string'', title = ''a: b_c'', default_value = Some ''first''\<rparr>)"
    by code_simp
  from generateMetaYaml_last_writer [of collide_services]
  obtain schema where
    s: "generateMetaYaml_schema collide_services (analyzeServices collide_services) = Inr schema"
    and d: "distinct (map fst (properties schema))"
    and l: "\<And>k p before after.
      schema_writes collide_services (analyzeServices collide_services)
        = before @ [(k, p)] @ after
      \<and> k \<notin> fst ` set after \<and> k \<noteq> ''__proto__''
      \<Longrightarrow> map_of (properties schema) k = Some p"
    by blast
  have n: "''a_b_c'' \<notin> fst ` set ([] :: (string \<times> Property) list)" "''a_b_c'' \<noteq> ''__proto__''"
    by simp_all
  have m: "map_of (properties schema) ''a_b_c'' = Some ?p"
    by (rule l [of ?before "''a_b_c''" ?p "[]"]) (intro conjI w n)
  from s d m have "\<exists>schema.
      generateMetaYaml_schema collide_services (analyzeServices collide_services) = Inr schema
      \<and> distinct (map fst (properties schema))
      \<and> map_of (properties schema) ''a_b_c'' = Some ?p"
    by blast
  with i w n show ?thesis
    by (intro conjI)
qed

text \<open>
  In \<open>collide_services\<close> the key \<open>a_b_c\<close> is written twice: third, for the variable
  \<open>b_c\<close> of \<open>a\<close>, and last, for the variable \<open>c\<close> of \<open>a_b\<close>. The schema records the
  later title and default.
\<close>

theorem generateMetaYaml_collision_counterexample:
  "schema_writes collide_services (analyzeServices collide_services) ! 2 =
     (''a_b_c'', \<lparr>ptype = ''string'', title = ''a: b_c'', default_value = Some ''first''\<rparr>)
   \<and> schema_writes collide_services (analyzeServices collide_services) ! 5 =
     (''a_b_c'', \<lparr>ptype = ''string'', title = ''a_b: c'', default_value = Some ''second''\<rparr>)
   \<and> schema_property
       (generateMetaYaml_schema collide_services (analyzeServices collide_services))
       ''a_b_c'' =
     Some \<lparr>ptype = ''string'', title = ''a_b: c'', default_value = Some ''second''\<rparr>"
  by code_simp

subsection \<open>Volume tokens without a colon\<close>

text \<open>
  C7, as the code has it. A volume token with fewer than two colon-separated parts comes
  back as a named volume: its name is the placeholder \<open>unknown\<close>, its container path is
  the token as it stands, and the emitter writes it as a volume entry.
\<close>

theorem parseVolume_no_colon:
  assumes "length (split_on CHR '':'' volume) < 2"
  shows \<open>parseVolume volume =
      \<lparr>vtype = Volume, vname = ''unknown'', containerPath = volume, hostPath = None\<rparr>
    \<and> mount_entry volume =
      ''        {\<newline>'' @
      ''          type: "volume",\<newline>'' @
      ''          name: "unknown",\<newline>'' @
      ''          mountPath: "'' @ volume @ ''",\<newline>'' @
      ''        },\<newline>''\<close>
proof -
  have p: "parseVolume volume =
      \<lparr>vtype = Volume, vname = ''unknown'', containerPath = volume, hostPath = None\<rparr>"
    using assms by (simp add: parseVolume_def Let_def)
  show ?thesis
    unfolding mount_entry_def p by (simp add: Let_def)
qed

theorem parseVolume_no_colon_witness:
  \<open>length (split_on CHR '':'' ''/var/lib/mysql'') < 2
   \<and> parseVolume ''/var/lib/mysql'' =
      \<lparr>vtype = Volume, vname = ''unknown'', containerPath = ''/var/lib/mysql'',
       hostPath = None\<rparr>
   \<and> mount_entry ''/var/lib/mysql'' =
      ''        {\<newline>'' @
      ''          type: "volume",\<newline>'' @
      ''          name: "unknown",\<newline>'' @
      ''          mountPath: "/var/lib/mysql",\<newline>'' @
      ''        },\<newline>''\<close>
proof -
  have h: "length (split_on CHR '':'' ''/var/lib/mysql'') < 2"
    by code_simp
  from parseVolume_no_colon [OF h] h show ?thesis by simp
qed

text \<open>
  The token \<open>data\<close> is not reported for manual handling: it becomes a volume binding
  with a name of the converter's own, and the mounts of the service hold a volume entry
  and no review marker.
\<close>

theorem parseVolume_unknown_counterexample:
  "length (split_on CHR '':'' ''data'') < 2
   \<and> vtype (parseVolume ''data'') = Volume
   \<and> vname (parseVolume ''data'') = ''unknown''
   \<and> mounts_code bare_volume_service = bare_volume_mounts
   \<and> \<not> includes_str bare_volume_mounts ''TODO''"
  by code_simp

subsection \<open>The database-detection scenario\<close>

lemma db_api_index_ts_eval:
  "generateIndexTs db_api_services (analyzeServices db_api_services) = Inr db_api_index_ts"
  by code_simp

lemma db_api_databases: "databases (analyzeServices db_api_services) = [''db'']"
  by code_simp

text \<open>
  After the escaping pass every \<open>$\<close> of a value follows a backslash, so no value that
  \<open>interpolateEnvValue\<close> returns holds the symbolic reference of any service.
\<close>

lemma escape_char_Cons:
  "escape_char c (y # t) = (if y = c then bsl # c # escape_char c t else y # escape_char c t)"
  by (simp add: escape_char_def)

lemma escape_char_hd: "c \<noteq> bsl \<Longrightarrow> escape_char c t \<noteq> c # b"
  by (cases t) (auto simp: escape_char_Cons escape_char_def)

lemma escape_char_before:
  assumes "c \<noteq> bsl"
  shows "escape_char c t = a @ x # c # b \<Longrightarrow> x = bsl"
proof (induction t arbitrary: a)
  case Nil
  then show ?case by (simp add: escape_char_def)
next
  case (Cons y t)
  show ?case
  proof (cases "y = c")
    case True
    with Cons.prems have e: "bsl # c # escape_char c t = a @ x # c # b"
      by (simp add: escape_char_Cons)
    show ?thesis
    proof (cases a)
      case Nil
      with e show ?thesis by simp
    next
      case (Cons a1 a')
      note a = this
      show ?thesis
      proof (cases a')
        case Nil
        with e a have "escape_char c t = c # b" by auto
        with escape_char_hd [OF assms] show ?thesis by blast
      next
        case (Cons a2 a'')
        with e a have "escape_char c t = a'' @ x # c # b" by auto
        then show ?thesis by (rule Cons.IH)
      qed
    qed
  next
    case False
    with Cons.prems have e: "y # escape_char c t = a @ x # c # b"
      by (simp add: escape_char_Cons)
    show ?thesis
    proof (cases a)
      case Nil
      with e have "escape_char c t = c # b" by auto
      with escape_char_hd [OF assms] show ?thesis by blast
    next
      case (Cons a1 a')
      with e have "escape_char c t = a' @ x # c # b" by auto
      then show ?thesis by (rule Cons.IH)
    qed
  qed
qed

lemma interpolateEnvValue_no_reference:
  assumes "interpolateEnvValue v dbPasswords = Inr out"
  shows "\<not> includes_str out (symbolic_reference n)"
proof
  assume "includes_str out (symbolic_reference n)"
  then obtain xs ys where o: "out = xs @ symbolic_reference n @ ys"
    unfolding includes_iff by blast
  from assms obtain t where t: "out = escape_char CHR ''$'' t"
    by (auto simp: interpolateEnvValue_def split: sum.splits)
  have neq: "CHR ''$'' \<noteq> bsl"
    by (simp add: bsl_def)
  have "escape_char CHR ''$'' t = (xs @ ''$(PROJECT_NAME)'') @ CHR ''_'' # CHR ''$'' #
      (''{input.'' @ n @ ''ServiceName}'' @ ys)"
    unfolding t [symmetric] o by (simp add: symbolic_reference_def)
  then have "CHR ''_'' = bsl"
    by (rule escape_char_before [OF neq])
  then show False by (simp add: bsl_def)
qed

text \<open>
  C4. In the scenario \<open>db\<close> is a Database and its secret statement is written. The
  occurrence of \<open>db\<close> in the variable of \<open>api\<close> is replaced by the symbolic reference, and
  the escaping pass that follows puts a backslash before both of its \<open>$\<close>: the
  generator source holds \<open>\$(PROJECT_NAME)_\${input.dbServiceName}\<close>, in which
  \<open>\${\<close> no longer opens a substitution, and does not hold the reference itself. No
  environment value that the converter emits holds a symbolic reference.
\<close>

theorem generateIndexTs_escaped_reference:
  "databases (analyzeServices db_api_services) = [''db'']
   \<and> generateIndexTs db_api_services (analyzeServices db_api_services) = Inr db_api_index_ts
   \<and> includes_str db_api_index_ts ''const dbPassword = randomPassword();''
   \<and> interpolateEnvValue (EnvStr ''pg://db:5432/app'') [(''db'', ''dbPassword'')] =
       Inr (''pg://'' @ [bsl] @ ''$(PROJECT_NAME)_'' @ [bsl] @ ''${input.dbServiceName}:5432/app'')
   \<and> symbolic_reference ''db'' = ''$(PROJECT_NAME)_${input.dbServiceName}''
   \<and> \<not> includes_str db_api_index_ts (symbolic_reference ''db'')
   \<and> (\<forall>v dbPasswords out n.
        interpolateEnvValue v dbPasswords = Inr out \<longrightarrow>
        \<not> includes_str out (symbolic_reference n))"
proof (intro conjI)
  show "databases (analyzeServices db_api_services) = [''db'']"
    by (rule db_api_databases)
  show "generateIndexTs db_api_services (analyzeServices db_api_services) = Inr db_api_index_ts"
    by (rule db_api_index_ts_eval)
  show "includes_str db_api_index_ts ''const dbPassword = randomPassword();''"
    by code_simp
  show "interpolateEnvValue (EnvStr ''pg://db:5432/app'') [(''db'', ''dbPassword'')] =
      Inr (''pg://'' @ [bsl] @ ''$(PROJECT_NAME)_'' @ [bsl] @ ''${input.dbServiceName}:5432/app'')"
    by code_simp
  show "symbolic_reference ''db'' = ''$(PROJECT_NAME)_${input.dbServiceName}''"
    by (simp add: symbolic_reference_def)
  show "\<not> includes_str db_api_index_ts (symbolic_reference ''db'')"
    by code_simp
  show "\<forall>v dbPasswords out n.
      interpolateEnvValue v dbPasswords = Inr out \<longrightarrow>
      \<not> includes_str out (symbolic_reference n)"
    using interpolateEnvValue_no_reference by blast
qed

theorem generateIndexTs_escaped_reference_witness:
  "interpolateEnvValue (EnvStr ''redis://cache:6379'') [(''cache'', ''cachePassword'')] =
     Inr (''redis://'' @ [bsl] @ ''$(PROJECT_NAME)_'' @ [bsl] @ ''${input.cacheServiceName}:6379'')
   \<and> \<not> includes_str
       (''redis://'' @ [bsl] @ ''$(PROJECT_NAME)_'' @ [bsl] @ ''${input.cacheServiceName}:6379'')
       (symbolic_reference ''cache'')"
proof -
  have e: "interpolateEnvValue (EnvStr ''redis://cache:6379'') [(''cache'', ''cachePassword'')] =
      Inr (''redis://'' @ [bsl] @ ''$(PROJECT_NAME)_'' @ [bsl] @ ''${input.cacheServiceName}:6379'')"
    by code_simp
  note g = generateIndexTs_escaped_reference [THEN conjunct2, THEN conjunct2, THEN conjunct2,
      THEN conjunct2, THEN conjunct2, THEN conjunct2]
  from g e have "\<not> includes_str
      (''redis://'' @ [bsl] @ ''$(PROJECT_NAME)_'' @ [bsl] @ ''${input.cacheServiceName}:6379'')
      (symbolic_reference ''cache'')"
    by blast
  with e show ?thesis by blast
qed

subsection \<open>The generator source text\<close>

lemma password_loop_eq:
  "password_loop dbs (pw, code) =
     (apply_writes pw (map (\<lambda>d. (d, sanitizeVarName d @ ''Password'')) dbs),
      code @ concat (map secret_statement dbs))"
proof (induction dbs arbitrary: pw code)
  case Nil
  then show ?case by (simp add: apply_writes_def)
next
  case (Cons d ds)
  show ?case
    by (simp add: Cons.IH Let_def apply_writes_Cons secret_statement_def)
qed

lemma keys_js_set: "fst ` set (js_set k v obj) \<subseteq> insert k (fst ` set obj)"
proof -
  have r: "fst ` set (replace_value k v obj) = fst ` set obj"
    using keys_replace_value [of k v obj, THEN arg_cong [where f = set]] by simp
  have i: "fst ` set (insert_index k v obj) = insert k (fst ` set obj)"
    using keys_insert_index [of k v obj] by simp
  show ?thesis
    unfolding js_set_def using r i by (simp add: image_Un subset_insertI)
qed

lemma keys_apply_writes:
  "fst ` set (apply_writes obj ws) \<subseteq> fst ` set obj \<union> fst ` set ws"
proof (induction ws arbitrary: obj)
  case Nil
  then show ?case by (simp add: apply_writes_def)
next
  case (Cons w ws)
  have "fst ` set (apply_writes (js_set (fst w) (snd w) obj) ws)
      \<subseteq> fst ` set (js_set (fst w) (snd w) obj) \<union> fst ` set ws"
    by (rule Cons.IH)
  also have "\<dots> \<subseteq> insert (fst w) (fst ` set obj) \<union> fst ` set ws"
    using keys_js_set [of "fst w" "snd w" obj] by blast
  finally show ?case
    unfolding apply_writes_Cons by auto
qed

lemma password_loop_lookup:
  assumes "db \<in> set dbs" and "db \<noteq> ''__proto__''"
  shows "js_get_text (apply_writes pw (map (\<lambda>d. (d, sanitizeVarName d @ ''Password'')) dbs)) db
    = sanitizeVarName db @ ''Password''"
proof -
  let ?f = "\<lambda>d. (d, sanitizeVarName d @ ''Password'')"
  from assms(1) obtain xs ys where s: "dbs = xs @ db # ys" "db \<notin> set ys"
    by (meson split_list_last)
  have w: "map ?f dbs = map ?f xs @ [(db, sanitizeVarName db @ ''Password'')] @ map ?f ys"
    by (simp add: s(1))
  have n: "db \<notin> fst ` set (map ?f ys)"
    using s(2) by force
  have "map_of (apply_writes pw (map ?f dbs)) db = Some (sanitizeVarName db @ ''Password'')"
    unfolding w using assms(2) n by (rule map_of_apply_writes_last)
  then show ?thesis by (simp add: js_get_text_def)
qed

lemma env_loop_prefix: "env_loop pw es code = Inr c \<Longrightarrow> prefix code c"
proof (induction es arbitrary: code)
  case Nil
  then show ?case by simp
next
  case (Cons e es)
  obtain key v where e: "e = (key, v)" by (cases e)
  from Cons.prems obtain iv where
    "env_loop pw es (code @ ''        `'' @ key @ ''='' @ iv @ ''`,\<newline>'') = Inr c"
    by (auto simp: e split: sum.splits)
  from Cons.IH [OF this] show ?case
    using append_prefixD by blast
qed


lemma includes_str_mid: "includes_str (a @ pat @ b) pat"
  unfolding includes_iff by blast

lemma generateAppServiceCode_head:
  assumes "generateAppServiceCode n service pw = Inr c"
  shows "prefix (application_head n) c"
proof -
  let ?head = \<open>''  // '' @ n @ '' Service\<newline>'' @
      ''  services.push({\<newline>'' @
      ''    type: "app",\<newline>'' @
      ''    data: {\<newline>'' @
      ''      serviceName: input.'' @ n @ ''ServiceName,\<newline>''\<close>
  let ?env = "parseEnvironment
      (case environment_opt service of None \<Rightarrow> EnvRecord [] | Some env \<Rightarrow> env)"
  have h: "application_head n = ?head"
    by (simp add: application_head_def runtime_name_reference_def)
  have "prefix ?head c"
  proof (cases "?env = []")
    case True
    with assms obtain rest where "c = ?head @ rest"
      by (auto simp: generateAppServiceCode_def Let_def split: sum.splits)
    then show ?thesis
      unfolding prefix_def by blast
  next
    case False
    with assms obtain c1 where c1: "env_loop pw ?env (?head @ ''      env: [\<newline>'') = Inr c1"
      and c: "prefix c1 c"
      by (auto simp: generateAppServiceCode_def Let_def split: sum.splits)
    from env_loop_prefix [OF c1] c show ?thesis
      by (meson append_prefixD prefix_order.trans)
  qed
  then show ?thesis
    unfolding h .
qed

text \<open>
  The source text of an application service reads the keys of \<open>dbPasswords\<close> only: the
  names of the secret variables do not enter it.
\<close>

lemma interpolate_loop_keys:
  "interpolate_loop (map (\<lambda>p. (fst p, [])) pw) v = interpolate_loop pw v"
proof (induction pw arbitrary: v)
  case Nil
  then show ?case by simp
next
  case (Cons p pw)
  obtain k x where p: "p = (k, x)" by (cases p)
  show ?case
    by (cases "replace_service_name k v") (simp_all add: p Cons.IH)
qed

lemma env_loop_keys:
  "env_loop (map (\<lambda>p. (fst p, [])) pw) es code = env_loop pw es code"
proof (induction es arbitrary: code)
  case Nil
  then show ?case by simp
next
  case (Cons e es)
  obtain key v where e: "e = (key, v)" by (cases e)
  show ?case
    by (cases "interpolate_loop pw (js_string v)")
      (simp_all add: e Cons.IH interpolateEnvValue_def interpolate_loop_keys)
qed

lemma generateAppServiceCode_keys:
  "generateAppServiceCode n service (map (\<lambda>p. (fst p, [])) pw) =
     generateAppServiceCode n service pw"
  unfolding generateAppServiceCode_def env_loop_keys ..

text \<open>Taking the values out of an object commutes with the assignments to it.\<close>

lemma erase_replace_value:
  "map (\<lambda>p. (fst p, [])) (replace_value k v obj) =
     replace_value k [] (map (\<lambda>p. (fst p, [])) obj)"
  by (induction obj) simp_all

lemma erase_insert_index:
  "map (\<lambda>p. (fst p, [])) (insert_index k v obj) =
     insert_index k [] (map (\<lambda>p. (fst p, [])) obj)"
  by (induction obj) simp_all

lemma erase_js_set:
  "map (\<lambda>p. (fst p, [])) (js_set k v obj) = js_set k [] (map (\<lambda>p. (fst p, [])) obj)"
proof -
  have m: "map fst (map (\<lambda>p. (fst p, [])) obj) = map fst obj"
    by simp
  show ?thesis
    unfolding js_set_def m by (simp add: erase_replace_value erase_insert_index)
qed

lemma erase_apply_writes:
  "map (\<lambda>p. (fst p, [])) (apply_writes obj ws) =
     apply_writes (map (\<lambda>p. (fst p, [])) obj) (map (\<lambda>w. (fst w, [])) ws)"
proof (induction ws arbitrary: obj)
  case Nil
  then show ?case by (simp add: apply_writes_def)
next
  case (Cons w ws)
  show ?case
    unfolding list.map apply_writes_Cons Cons.IH erase_js_set by simp
qed

lemma erase_passwords:
  "map (\<lambda>p. (fst p, []))
     (apply_writes [] (map (\<lambda>d. (d, sanitizeVarName d @ ''Password'')) dbs)) = secret_free dbs"
  unfolding erase_apply_writes secret_free_def by (simp add: comp_def)

lemma generateAppServiceCode_secret_free:
  assumes "map (\<lambda>p. (fst p, [])) pw = secret_free dbs"
  shows "generateAppServiceCode n service (secret_free dbs) = generateAppServiceCode n service pw"
  using generateAppServiceCode_keys [of n service pw] assms by simp

lemma interpolate_loop_total:
  "\<forall>k \<in> fst ` set pw. supported_pattern k \<Longrightarrow> \<exists>s. interpolate_loop pw v = Inr s"
proof (induction pw arbitrary: v)
  case Nil
  then show ?case by simp
next
  case (Cons p pw)
  obtain k x where p: "p = (k, x)" by (cases p)
  from Cons.prems have "supported_pattern k" by (simp add: p)
  moreover from Cons have "\<exists>s. interpolate_loop pw v' = Inr s" for v' by simp
  ultimately show ?case
    by (simp add: p replace_service_name_def)
qed

lemma env_loop_total:
  assumes "\<forall>k \<in> fst ` set pw. supported_pattern k"
  shows "\<exists>c. env_loop pw es code = Inr c"
proof (induction es arbitrary: code)
  case Nil
  then show ?case by simp
next
  case (Cons e es)
  obtain key v where e: "e = (key, v)" by (cases e)
  from interpolate_loop_total [OF assms] obtain s where
    "interpolate_loop pw (js_string v) = Inr s"
    by blast
  then obtain iv where "interpolateEnvValue v pw = Inr iv"
    by (simp add: interpolateEnvValue_def)
  with Cons.IH show ?case
    by (simp add: e)
qed

lemma generateAppServiceCode_total:
  assumes "\<forall>k \<in> fst ` set pw. supported_pattern k" and "modelled_port service"
  shows "\<exists>c. generateAppServiceCode n service pw = Inr c"
proof -
  let ?env = "parseEnvironment
      (case environment_opt service of None \<Rightarrow> EnvRecord [] | Some env \<Rightarrow> env)"
  from assms(2) obtain d where d: "domains_code service = Inr d"
    by (auto simp: modelled_port_def split: sum.splits)
  show ?thesis
  proof (cases "?env = []")
    case True
    then show ?thesis by (simp add: generateAppServiceCode_def Let_def d)
  next
    case False
    from env_loop_total [OF assms(1)] obtain c1 where
      \<open>env_loop pw ?env ((''  // '' @ n @ '' Service\<newline>'' @
        ''  services.push({\<newline>'' @
        ''    type: "app",\<newline>'' @
        ''    data: {\<newline>'' @
        ''      serviceName: input.'' @ n @ ''ServiceName,\<newline>'') @ ''      env: [\<newline>'') = Inr c1\<close>
      by blast
    with False show ?thesis
      by (simp add: generateAppServiceCode_def Let_def d)
  qed
qed

lemma detectDatabaseType_range:
  "detectDatabaseType img = Some t \<Longrightarrow>
     t \<in> set [''postgres'', ''mysql'', ''mariadb'', ''mongo'', ''redis'']"
  by (auto simp: detectDatabaseType_def Let_def split: if_splits)

lemma database_loop_step_app:
  assumes "map_of services db = Some service"
    and "detectDatabaseType (case image_opt service of None \<Rightarrow> [] | Some i \<Rightarrow> i) = None"
  shows "database_loop services pw (db # rest) code =
     (case generateAppServiceCode db service pw of
        Inl e \<Rightarrow> Inl e
      | Inr c \<Rightarrow> database_loop services pw rest
          (code @ (''  // '' @ db @ '' Service (database)\<newline>'' @ c)))"
  using assms by (simp add: Let_def split: sum.splits)

lemma database_loop_step_db:
  assumes "map_of services db = Some service"
    and "detectDatabaseType (case image_opt service of None \<Rightarrow> [] | Some i \<Rightarrow> i) = Some t"
  shows \<open>database_loop services pw (db # rest) code =
     database_loop services pw rest
       (code @ (''  // '' @ db @ '' Service ('' @ t @ '')\<newline>'' @
          ''  services.push({\<newline>'' @
          ''    type: "'' @ t @ ''",\<newline>'' @
          ''    data: {\<newline>'' @
          ''      serviceName: input.'' @ db @ ''ServiceName,\<newline>'' @
          ''      password: '' @ js_get_text pw db @ '',\<newline>'' @
          ''    },\<newline>'' @
          ''  });\<newline>\<newline>''))\<close>
  using assms detectDatabaseType_range [OF assms(2)] by (simp add: Let_def)

lemma database_loop_decls:
  assumes "database_loop services pw dbs code = Inr result"
    and "\<forall>db \<in> set dbs. db \<noteq> ''__proto__'' \<longrightarrow>
           js_get_text pw db = sanitizeVarName db @ ''Password''"
    and "map (\<lambda>p. (fst p, [])) pw = secret_free all"
  shows "\<exists>decls. result = code @ concat decls
           \<and> list_all2 (database_declaration services all) dbs decls"
  using assms(1,2)
proof (induction dbs arbitrary: code)
  case Nil
  then show ?case by simp
next
  case (Cons db rest)
  from Cons.prems(1) obtain service where s: "map_of services db = Some service"
    by (cases "map_of services db") auto
  let ?img = "case image_opt service of None \<Rightarrow> [] | Some i \<Rightarrow> i"
  have pw: "\<forall>d \<in> set rest. d \<noteq> ''__proto__'' \<longrightarrow>
      js_get_text pw d = sanitizeVarName d @ ''Password''"
    using Cons.prems(2) by simp
  show ?case
  proof (cases "detectDatabaseType ?img")
    case None
    from Cons.prems(1) obtain c where c: "generateAppServiceCode db service pw = Inr c"
      and l: "database_loop services pw rest
          (code @ (''  // '' @ db @ '' Service (database)\<newline>'' @ c)) = Inr result"
      unfolding database_loop_step_app [OF s None] by (auto split: sum.splits)
    let ?decl = "''  // '' @ db @ '' Service (database)\<newline>'' @ c"
    from Cons.IH [OF l pw] obtain decls where d: "result = (code @ ?decl) @ concat decls"
      "list_all2 (database_declaration services all) rest decls"
      by blast
    have "generateAppServiceCode db service (secret_free all) = Inr c"
      unfolding generateAppServiceCode_secret_free [OF assms(3)] by (rule c)
    then have "database_declaration services all db ?decl"
      using s None by (simp add: database_declaration_def)
    with d have "result = code @ concat (?decl # decls)
        \<and> list_all2 (database_declaration services all) (db # rest) (?decl # decls)"
      by simp
    then show ?thesis by blast
  next
    case (Some t)
    let ?decl = \<open>''  // '' @ db @ '' Service ('' @ t @ '')\<newline>'' @
          ''  services.push({\<newline>'' @
          ''    type: "'' @ t @ ''",\<newline>'' @
          ''    data: {\<newline>'' @
          ''      serviceName: input.'' @ db @ ''ServiceName,\<newline>'' @
          ''      password: '' @ js_get_text pw db @ '',\<newline>'' @
          ''    },\<newline>'' @
          ''  });\<newline>\<newline>''\<close>
    from Cons.prems(1) have l: "database_loop services pw rest (code @ ?decl) = Inr result"
      unfolding database_loop_step_db [OF s Some] .
    from Cons.IH [OF l pw] obtain decls where d: "result = (code @ ?decl) @ concat decls"
      "list_all2 (database_declaration services all) rest decls"
      by blast
    have \<open>?decl = (''  // '' @ db @ '' Service ('' @ t @ '')\<newline>'' @
          ''  services.push({\<newline>'' @
          ''    type: "'' @ t @ ''",\<newline>'' @
          ''    data: {\<newline>'' @
          ''      '') @ runtime_name_reference db @ (''\<newline>'' @
          ''      password: '' @ js_get_text pw db @ '',\<newline>'' @
          ''    },\<newline>'' @
          ''  });\<newline>\<newline>'')\<close>
      by (simp add: runtime_name_reference_def)
    then have r: "includes_str ?decl (runtime_name_reference db)"
      using includes_str_mid by metis
    have p: "prefix (''  // '' @ db @ '' Service ('' @ t @ '')\<newline>'') ?decl"
      by (simp add: prefix_def)
    have b: "?decl = database_block t db" if "db \<noteq> ''__proto__''"
    proof -
      from that Cons.prems(2) have g: "js_get_text pw db = sanitizeVarName db @ ''Password''"
        by simp
      show ?thesis
        by (simp add: database_block_def runtime_name_reference_def secret_reference_def g)
    qed
    have dd: "database_declaration services all db decl =
        (if db = ''__proto__''
         then prefix (''  // '' @ db @ '' Service ('' @ t @ '')\<newline>'') decl
              \<and> includes_str decl (runtime_name_reference db)
         else decl = database_block t db)" for decl
      by (simp only: database_declaration_def s Some option.case)
    have "database_declaration services all db ?decl"
    proof (cases "db = ''__proto__''")
      case True
      from p r have "prefix (''  // '' @ db @ '' Service ('' @ t @ '')\<newline>'') ?decl
          \<and> includes_str ?decl (runtime_name_reference db)"
        by (rule conjI)
      then show ?thesis
        unfolding dd if_P [OF True] .
    next
      case False
      show ?thesis
        unfolding dd if_not_P [OF False] by (rule b [OF False])
    qed
    with d have "result = code @ concat (?decl # decls)
        \<and> list_all2 (database_declaration services all) (db # rest) (?decl # decls)"
      by simp
    then show ?thesis by blast
  qed
qed

lemma app_loop_decls:
  assumes "app_loop services pw names code = Inr result"
    and "map (\<lambda>p. (fst p, [])) pw = secret_free all"
  shows "\<exists>decls. result = code @ concat decls
           \<and> list_all2 (application_declaration services all) names decls"
  using assms(1)
proof (induction names arbitrary: code)
  case Nil
  then show ?case by simp
next
  case (Cons n rest)
  from Cons.prems obtain service c where s: "map_of services n = Some service"
    and c: "generateAppServiceCode n service pw = Inr c"
    and l: "app_loop services pw rest (code @ c) = Inr result"
    by (auto split: option.splits sum.splits)
  from Cons.IH [OF l] obtain decls where d: "result = (code @ c) @ concat decls"
    "list_all2 (application_declaration services all) rest decls"
    by blast
  have "generateAppServiceCode n service (secret_free all) = Inr c"
    unfolding generateAppServiceCode_secret_free [OF assms(2)] by (rule c)
  then have "application_declaration services all n c"
    using s by (simp add: application_declaration_def)
  with d have "result = code @ concat (c # decls)
      \<and> list_all2 (application_declaration services all) (n # rest) (c # decls)"
    by simp
  then show ?case by blast
qed

lemma declared_service:
  assumes "n \<in> fst ` set services" and "\<forall>service \<in> snd ` set services. modelled_port service"
  obtains service where "map_of services n = Some service" and "modelled_port service"
proof -
  from assms(1) obtain service where s: "map_of services n = Some service"
    by (cases "map_of services n") (auto simp: map_of_eq_None_iff)
  then have "(n, service) \<in> set services"
    by (rule map_of_SomeD)
  then have "service \<in> snd ` set services"
    by force
  with assms(2) have "modelled_port service"
    by blast
  with s show ?thesis
    by (rule that)
qed

lemma database_loop_total:
  assumes "\<forall>k \<in> fst ` set pw. supported_pattern k"
    and "\<forall>service \<in> snd ` set services. modelled_port service"
    and "set dbs \<subseteq> fst ` set services"
  shows "\<exists>result. database_loop services pw dbs code = Inr result"
  using assms(3)
proof (induction dbs arbitrary: code)
  case Nil
  then show ?case by simp
next
  case (Cons db rest)
  then have "db \<in> fst ` set services" by simp
  then obtain service where s: "map_of services db = Some service" and m: "modelled_port service"
    using assms(2) by (rule declared_service)
  from Cons have ih: "\<exists>result. database_loop services pw rest code' = Inr result" for code'
    by simp
  show ?case
  proof (cases "detectDatabaseType (case image_opt service of None \<Rightarrow> [] | Some i \<Rightarrow> i)")
    case None
    from generateAppServiceCode_total [OF assms(1) m] obtain c
      where "generateAppServiceCode db service pw = Inr c" by blast
    then show ?thesis
      unfolding database_loop_step_app [OF s None] using ih by simp
  next
    case (Some t)
    show ?thesis
      unfolding database_loop_step_db [OF s Some] using ih by blast
  qed
qed

lemma app_loop_total:
  assumes "\<forall>k \<in> fst ` set pw. supported_pattern k"
    and "\<forall>service \<in> snd ` set services. modelled_port service"
    and "set names \<subseteq> fst ` set services"
  shows "\<exists>result. app_loop services pw names code = Inr result"
  using assms(3)
proof (induction names arbitrary: code)
  case Nil
  then show ?case by simp
next
  case (Cons n rest)
  then have "n \<in> fst ` set services" by simp
  then obtain service where s: "map_of services n = Some service" and m: "modelled_port service"
    using assms(2) by (rule declared_service)
  from generateAppServiceCode_total [OF assms(1) m] obtain c
    where "generateAppServiceCode n service pw = Inr c" by blast
  moreover from Cons have "\<exists>result. app_loop services pw rest (code @ c) = Inr result"
    by simp
  ultimately show ?case using s by simp
qed

lemma generateIndexTs_eq:
  "generateIndexTs services a =
     (case database_loop services
             (apply_writes [] (map (\<lambda>d. (d, sanitizeVarName d @ ''Password'')) (databases a)))
             (databases a)
             ((index_header @ concat (map secret_statement (databases a)))
              @ (if databases a = [] then [] else ''\<newline>'')) of
        Inl e \<Rightarrow> Inl e
      | Inr code2 \<Rightarrow>
          (case app_loop services
                  (apply_writes [] (map (\<lambda>d. (d, sanitizeVarName d @ ''Password'')) (databases a)))
                  (apps a) code2 of
             Inl e \<Rightarrow> Inl e
           | Inr code3 \<Rightarrow>
               (case app_loop services
                       (apply_writes []
                          (map (\<lambda>d. (d, sanitizeVarName d @ ''Password'')) (databases a)))
                       (otherServices a) code3 of
                  Inl e \<Rightarrow> Inl e
                | Inr code4 \<Rightarrow> Inr (code4 @ index_footer))))"
proof -
  have sep: "(if databases a \<noteq> [] then X @ ''\<newline>'' else X) =
      X @ (if databases a = [] then [] else ''\<newline>'')" for X :: string
    by simp
  show ?thesis
    by (simp only: generateIndexTs_def password_loop_eq prod.case sep index_footer_def)
qed

text \<open>
  C5, as the code has it. When no database name holds regular-expression syntax beyond
  \<open>.\<close> and the first port of every service is one that the model writes, the generator
  source is written. It is the header, one secret statement for each database service in
  document order, the empty line when there is a database, the declarations of the
  database services, one for each and in the same order, the declarations of the
  applications and of the other services, and the closing lines, with nothing in between.
  The declaration of a database in whose image \<open>detectDatabaseType\<close> finds an engine is
  the block of that engine, with the runtime-name reference and the secret reference
  (the name \<open>__proto__\<close> left aside). The declaration of a database with no such engine
  is its comment followed by the declaration of an application service; such a
  declaration is the text written when no secret is named, it opens with the lines of the
  type \<open>app\<close> and the runtime-name reference, and it does not depend on the names of the
  secret variables.
\<close>

theorem generateIndexTs_databases:
  "((\<forall>db \<in> set (databases (analyzeServices services)). supported_pattern db)
      \<and> (\<forall>service \<in> snd ` set services. modelled_port service) \<longrightarrow>
      (\<exists>code. generateIndexTs services (analyzeServices services) = Inr code))
   \<and> (\<forall>code. generateIndexTs services (analyzeServices services) = Inr code \<longrightarrow>
        (\<exists>decls appdecls otherdecls.
           code = index_header
             @ concat (map secret_statement (databases (analyzeServices services)))
             @ (if databases (analyzeServices services) = [] then [] else ''\<newline>'')
             @ concat decls @ concat appdecls @ concat otherdecls @ index_footer
           \<and> list_all2
               (database_declaration services (databases (analyzeServices services)))
               (databases (analyzeServices services)) decls
           \<and> list_all2
               (application_declaration services (databases (analyzeServices services)))
               (apps (analyzeServices services)) appdecls
           \<and> list_all2
               (application_declaration services (databases (analyzeServices services)))
               (otherServices (analyzeServices services)) otherdecls))
   \<and> (\<forall>n service dbPasswords c.
        generateAppServiceCode n service dbPasswords = Inr c \<longrightarrow>
        prefix (application_head n) c)
   \<and> (\<forall>n service dbPasswords.
        generateAppServiceCode n service (map (\<lambda>p. (fst p, [])) dbPasswords) =
        generateAppServiceCode n service dbPasswords)"
proof (intro conjI impI allI)
  let ?a = "analyzeServices services"
  let ?pw = "apply_writes [] (map (\<lambda>d. (d, sanitizeVarName d @ ''Password'')) (databases ?a))"
  let ?code = "index_header @ concat (map secret_statement (databases ?a))"
  let ?sep = "if databases ?a = [] then [] else ''\<newline>''"
  have names: "set (databases ?a) \<subseteq> fst ` set services" "set (apps ?a) \<subseteq> fst ` set services"
    "set (otherServices ?a) \<subseteq> fst ` set services"
    using analysis_names_declared [of services] by auto
  {
    assume h: "(\<forall>db \<in> set (databases ?a). supported_pattern db)
      \<and> (\<forall>service \<in> snd ` set services. modelled_port service)"
    then have m: "\<forall>service \<in> snd ` set services. modelled_port service"
      by blast
    have "fst ` set ?pw \<subseteq> set (databases ?a)"
      using keys_apply_writes [of "[]" "map (\<lambda>d. (d, sanitizeVarName d @ ''Password'')) (databases ?a)"]
      by force
    with h have pats: "\<forall>k \<in> fst ` set ?pw. supported_pattern k"
      by blast
    obtain code2 where c2: "database_loop services ?pw (databases ?a) (?code @ ?sep) = Inr code2"
      using database_loop_total [OF pats m names(1)] by blast
    obtain code3 where c3: "app_loop services ?pw (apps ?a) code2 = Inr code3"
      using app_loop_total [OF pats m names(2)] by blast
    obtain code4 where c4: "app_loop services ?pw (otherServices ?a) code3 = Inr code4"
      using app_loop_total [OF pats m names(3)] by blast
    have "generateIndexTs services ?a = Inr (code4 @ index_footer)"
      unfolding generateIndexTs_eq using c2 c3 c4 by simp
    then show "\<exists>code. generateIndexTs services ?a = Inr code"
      by blast
  }
  fix code
  assume g: "generateIndexTs services ?a = Inr code"
  then obtain code2 code3 code4 where
    c2: "database_loop services ?pw (databases ?a) (?code @ ?sep) = Inr code2"
    and c3: "app_loop services ?pw (apps ?a) code2 = Inr code3"
    and c4: "app_loop services ?pw (otherServices ?a) code3 = Inr code4"
    and c: "code = code4 @ index_footer"
    unfolding generateIndexTs_eq by (auto split: sum.splits)
  have look: "\<forall>db \<in> set (databases ?a). db \<noteq> ''__proto__'' \<longrightarrow>
      js_get_text ?pw db = sanitizeVarName db @ ''Password''"
    using password_loop_lookup by blast
  have free: "map (\<lambda>p. (fst p, [])) ?pw = secret_free (databases ?a)"
    by (rule erase_passwords)
  from database_loop_decls [OF c2 look free] obtain decls where
    d: "code2 = (?code @ ?sep) @ concat decls"
    and l: "list_all2 (database_declaration services (databases ?a)) (databases ?a) decls"
    by blast
  from app_loop_decls [OF c3 free] obtain appdecls where
    d3: "code3 = code2 @ concat appdecls"
    and l3: "list_all2 (application_declaration services (databases ?a)) (apps ?a) appdecls"
    by blast
  from app_loop_decls [OF c4 free] obtain otherdecls where
    d4: "code4 = code3 @ concat otherdecls"
    and l4: "list_all2 (application_declaration services (databases ?a)) (otherServices ?a)
      otherdecls"
    by blast
  have "code = index_header @ concat (map secret_statement (databases ?a)) @ ?sep
      @ concat decls @ concat appdecls @ concat otherdecls @ index_footer"
    unfolding c d4 d3 d by simp
  with l l3 l4 show "\<exists>decls appdecls otherdecls.
      code = index_header @ concat (map secret_statement (databases ?a)) @ ?sep
        @ concat decls @ concat appdecls @ concat otherdecls @ index_footer
      \<and> list_all2 (database_declaration services (databases ?a)) (databases ?a) decls
      \<and> list_all2 (application_declaration services (databases ?a)) (apps ?a) appdecls
      \<and> list_all2 (application_declaration services (databases ?a)) (otherServices ?a)
          otherdecls"
    by blast
next
  fix n service dbPasswords c
  assume "generateAppServiceCode n service dbPasswords = Inr c"
  then show "prefix (application_head n) c"
    by (rule generateAppServiceCode_head)
next
  fix n service dbPasswords
  show "generateAppServiceCode n service (map (\<lambda>p. (fst p, [])) dbPasswords) =
      generateAppServiceCode n service dbPasswords"
    by (rule generateAppServiceCode_keys)
qed

theorem generateIndexTs_databases_witness:
  "databases (analyzeServices db_search_api_services) = [''db'', ''search'']
   \<and> apps (analyzeServices db_search_api_services) = [''api'']
   \<and> otherServices (analyzeServices db_search_api_services) = []
   \<and> supported_pattern ''db'' \<and> supported_pattern ''search''
   \<and> modelled_port (snd (db_search_api_services ! 0))
   \<and> modelled_port (snd (db_search_api_services ! 1))
   \<and> modelled_port (snd (db_search_api_services ! 2))
   \<and> length db_search_api_services = 3
   \<and> detectDatabaseType ''postgres:15'' = Some ''postgres''
   \<and> detectDatabaseType ''elasticsearch:8.11.0'' = None
   \<and> generateIndexTs db_search_api_services (analyzeServices db_search_api_services) =
       Inr db_search_api_index_ts"
proof -
  let ?S = db_search_api_services
  let ?dbs = "[''db'', ''search'']"
  let ?search = \<open>''  // search Service\<newline>'' @
      ''  services.push({\<newline>'' @
      ''    type: "app",\<newline>'' @
      ''    data: {\<newline>'' @
      ''      serviceName: input.searchServiceName,\<newline>'' @
      ''      source: {\<newline>'' @
      ''        type: "image",\<newline>'' @
      ''        image: input.searchServiceImage,\<newline>'' @
      ''      },\<newline>'' @
      ''    },\<newline>'' @
      ''  });\<newline>\<newline>''\<close>
  let ?api = \<open>''  // api Service\<newline>'' @
      ''  services.push({\<newline>'' @
      ''    type: "app",\<newline>'' @
      ''    data: {\<newline>'' @
      ''      serviceName: input.apiServiceName,\<newline>'' @
      ''      env: [\<newline>'' @
      ''        `DATABASE_URL=pg://'' @ [bsl] @ ''$(PROJECT_NAME)_'' @ [bsl] @
                  ''${input.dbServiceName}:5432/app`,\<newline>'' @
      ''      ].join("'' @ [bsl] @ ''n"),\<newline>'' @
      ''      source: {\<newline>'' @
      ''        type: "image",\<newline>'' @
      ''        image: input.apiServiceImage,\<newline>'' @
      ''      },\<newline>'' @
      ''    },\<newline>'' @
      ''  });\<newline>\<newline>''\<close>
  have a: "databases (analyzeServices ?S) = ?dbs" "apps (analyzeServices ?S) = [''api'']"
    "otherServices (analyzeServices ?S) = []"
    by code_simp+
  have p: "supported_pattern ''db''" "supported_pattern ''search''"
    by code_simp+
  have m: "modelled_port (snd (?S ! 0))" "modelled_port (snd (?S ! 1))"
    "modelled_port (snd (?S ! 2))" "length ?S = 3"
    by code_simp+
  have t: "detectDatabaseType ''postgres:15'' = Some ''postgres''"
    "detectDatabaseType ''elasticsearch:8.11.0'' = None"
    by code_simp+
  have h1: "\<forall>db \<in> set (databases (analyzeServices ?S)). supported_pattern db"
    unfolding a using p by simp
  have h2: "\<forall>service \<in> snd ` set ?S. modelled_port service"
  proof
    fix service
    assume "service \<in> snd ` set ?S"
    then obtain i where "i < length ?S" "service = snd (?S ! i)"
      by (auto simp: in_set_conv_nth)
    then have "i = 0 \<or> i = 1 \<or> i = 2"
      unfolding m(4) by arith
    with m \<open>service = snd (?S ! i)\<close> show "modelled_port service"
      by auto
  qed
  from generateIndexTs_databases [of ?S, THEN conjunct1] h1 h2
  obtain code where c: "generateIndexTs ?S (analyzeServices ?S) = Inr code"
    by blast
  from generateIndexTs_databases [of ?S, THEN conjunct2, THEN conjunct1] c
  obtain decls appdecls otherdecls where
    e: "code = index_header @ concat (map secret_statement ?dbs) @ ''\<newline>''
        @ concat decls @ concat appdecls @ concat otherdecls @ index_footer"
    and l: "list_all2 (database_declaration ?S ?dbs) ?dbs decls"
    and l2: "list_all2 (application_declaration ?S ?dbs) [''api''] appdecls"
    and l3: "list_all2 (application_declaration ?S ?dbs) [] otherdecls"
    unfolding a by auto
  have s: "map_of ?S ''db'' = Some (with_image ''postgres:15'')"
    "map_of ?S ''search'' = Some (with_image ''elasticsearch:8.11.0'')"
    "map_of ?S ''api'' = Some ((with_image ''node:20'')
         \<lparr>environment_opt := Some (EnvRecord [(''DATABASE_URL'', EnvStr ''pg://db:5432/app'')])\<rparr>)"
    by (simp_all add: db_search_api_services_def)
  have i: "image_opt (with_image x) = Some x" for x
    by (simp add: with_image_def no_fields_def)
  have g: "generateAppServiceCode ''search'' (with_image ''elasticsearch:8.11.0'')
      (secret_free ?dbs) = Inr ?search"
    "generateAppServiceCode ''api'' ((with_image ''node:20'')
         \<lparr>environment_opt := Some (EnvRecord [(''DATABASE_URL'', EnvStr ''pg://db:5432/app'')])\<rparr>)
      (secret_free ?dbs) = Inr ?api"
    by code_simp+
  from l obtain d1 d2 where decls: "decls = [d1, d2]"
    and d1: "database_declaration ?S ?dbs ''db'' d1"
    and d2: "database_declaration ?S ?dbs ''search'' d2"
    by (auto simp: list_all2_Cons1)
  from l2 obtain d3 where appdecls: "appdecls = [d3]"
    and d3: "application_declaration ?S ?dbs ''api'' d3"
    by (auto simp: list_all2_Cons1)
  from l3 have otherdecls: "otherdecls = []"
    by simp
  have v1: "d1 = database_block ''postgres'' ''db''"
    using d1 unfolding database_declaration_def s option.case i t by simp
  have v2: "d2 = ''  // search Service (database)\<newline>'' @ ?search"
    using d2 unfolding database_declaration_def s option.case i t g sum.case by simp
  have v3: "d3 = ?api"
    using d3 unfolding application_declaration_def s option.case g by simp
  have "index_header @ concat (map secret_statement ?dbs) @ ''\<newline>''
      @ concat [database_block ''postgres'' ''db'',
                ''  // search Service (database)\<newline>'' @ ?search]
      @ concat [?api] @ concat [] @ index_footer = db_search_api_index_ts"
    by code_simp
  then have "code = db_search_api_index_ts"
    unfolding e decls appdecls otherdecls v1 v2 v3 .
  with c have "generateIndexTs ?S (analyzeServices ?S) = Inr db_search_api_index_ts"
    by simp
  with a p m t show ?thesis
    by (intro conjI)
qed

text \<open>
  The service \<open>search\<close> with the image \<open>elasticsearch:8.11.0\<close> is a Database for
  the classifier, and its secret statement is written; \<open>detectDatabaseType\<close> does not
  know the engine, so the service is declared as an application and nothing after the
  secret statement mentions the secret.
\<close>

theorem generateIndexTs_unsupported_database_counterexample:
  "databases (analyzeServices search_services) = [''search'']
   \<and> generateIndexTs search_services (analyzeServices search_services) =
       Inr (index_header @ secret_statement ''search'' @ ''\<newline>'' @ search_index_ts_tail)
   \<and> \<not> includes_str search_index_ts_tail ''searchPassword''
   \<and> \<not> includes_str search_index_ts_tail ''password''"
  by code_simp

end
